theory Spec2Isabelle
  imports Complex_Main "HOL-Library.Monad_Syntax"
begin

section \<open>JavaScript numbers as far as the rate limiter needs them\<close>

text \<open>
  The limiter of \<^verbatim>\<open>app/api/analysis/start\<close> computes
  \<^verbatim>\<open>Math.floor(timeSinceRefill / this.refillIntervalMs)\<close> on integer-valued numbers.
  A zero divisor does not raise in JavaScript: the quotient is \<^verbatim>\<open>Infinity\<close>,
  \<^verbatim>\<open>-Infinity\<close> or \<^verbatim>\<open>NaN\<close>, and these values flow on through
  \<^verbatim>\<open>*\<close>, \<^verbatim>\<open>+\<close>, \<^verbatim>\<open>Math.min\<close> and \<^verbatim>\<open>>\<close>.  The type below
  holds the integer-valued numbers together with these three special values.
\<close>

datatype jsnum = Num int | PosInf | NegInf | NaN

fun js_floor_div :: "int \<Rightarrow> int \<Rightarrow> jsnum" where
  "js_floor_div a b =
     (if b = 0 then (if 0 < a then PosInf else if a < 0 then NegInf else NaN)
      else Num (a div b))"

fun js_mul :: "jsnum \<Rightarrow> int \<Rightarrow> jsnum" where
  "js_mul (Num a) b = Num (a * b)"
| "js_mul PosInf b = (if 0 < b then PosInf else if b < 0 then NegInf else NaN)"
| "js_mul NegInf b = (if 0 < b then NegInf else if b < 0 then PosInf else NaN)"
| "js_mul NaN b = NaN"

fun js_add :: "jsnum \<Rightarrow> jsnum \<Rightarrow> jsnum" where
  "js_add (Num a) (Num b) = Num (a + b)"
| "js_add NaN y = NaN"
| "js_add x NaN = NaN"
| "js_add PosInf NegInf = NaN"
| "js_add NegInf PosInf = NaN"
| "js_add PosInf y = PosInf"
| "js_add NegInf y = NegInf"
| "js_add (Num a) y = y"

fun js_min :: "int \<Rightarrow> jsnum \<Rightarrow> jsnum" where
  "js_min m (Num a) = Num (min m a)"
| "js_min m PosInf = Num m"
| "js_min m NegInf = NegInf"
| "js_min m NaN = NaN"

fun js_gt0 :: "jsnum \<Rightarrow> bool" where
  "js_gt0 (Num a) = (0 < a)"
| "js_gt0 PosInf = True"
| "js_gt0 NegInf = False"
| "js_gt0 NaN = False"

fun js_dec :: "jsnum \<Rightarrow> jsnum" where
  "js_dec (Num a) = Num (a - 1)"
| "js_dec x = x"

section \<open>The token bucket rate limiter\<close>

record bucket =
  tokens :: jsnum
  lastRefill :: int

record RateLimiter =
  buckets :: "string \<rightharpoonup> bucket"
  maxTokens :: int
  refillIntervalMs :: int
  tokensPerRefill :: int

text \<open>
  The refill step of \<^verbatim>\<open>checkLimit\<close> on an existing bucket
  (``Refill tokens based on time elapsed'').
\<close>

definition refill :: "RateLimiter \<Rightarrow> int \<Rightarrow> bucket \<Rightarrow> bucket" where
  "refill rl now b =
     (let timeSinceRefill = now - lastRefill b;
          refillsEarned = js_floor_div timeSinceRefill (refillIntervalMs rl)
      in if js_gt0 refillsEarned
         then \<lparr>tokens = js_min (maxTokens rl)
                          (js_add (tokens b) (js_mul refillsEarned (tokensPerRefill rl))),
               lastRefill = now\<rparr>
         else b)"

text \<open>
  \<^verbatim>\<open>checkLimit(key)\<close>; the reading of \<^verbatim>\<open>Date.now()\<close> is the argument \<open>now\<close>.
  The result is the returned boolean and the limiter after the call.
\<close>

definition checkLimit :: "RateLimiter \<Rightarrow> int \<Rightarrow> string \<Rightarrow> bool \<times> RateLimiter" where
  "checkLimit rl now key =
     (case buckets rl key of
        None \<Rightarrow>
          (True, rl\<lparr>buckets := (buckets rl)(key \<mapsto>
                    \<lparr>tokens = Num (maxTokens rl - 1), lastRefill = now\<rparr>)\<rparr>)
      | Some b \<Rightarrow>
          (let b1 = refill rl now b
           in if js_gt0 (tokens b1)
              then (True, rl\<lparr>buckets := (buckets rl)(key \<mapsto> b1\<lparr>tokens := js_dec (tokens b1)\<rparr>)\<rparr>)
              else (False, rl\<lparr>buckets := (buckets rl)(key \<mapsto> b1)\<rparr>)))"

text \<open>\<^verbatim>\<open>getRetryAfter(key)\<close>, in milliseconds.\<close>

definition getRetryAfter :: "RateLimiter \<Rightarrow> int \<Rightarrow> string \<Rightarrow> int" where
  "getRetryAfter rl now key =
     (case buckets rl key of
        None \<Rightarrow> 0
      | Some b \<Rightarrow>
          (let timeSinceRefill = now - lastRefill b;
               timeUntilRefill = refillIntervalMs rl - timeSinceRefill
           in max 0 timeUntilRefill))"

text \<open>The global instance: \<^verbatim>\<open>const rateLimiter = new RateLimiter(3, 0, 3)\<close>.\<close>

definition rateLimiter :: RateLimiter where
  "rateLimiter = \<lparr>buckets = Map.empty, maxTokens = 3, refillIntervalMs = 0, tokensPerRefill = 3\<rparr>"

text \<open>
  The instance the comment above that line documents
  (\<^verbatim>\<open>// 3 analyses per hour (3600000ms)\<close>).
\<close>

definition rateLimiter_documented :: RateLimiter where
  "rateLimiter_documented =
     \<lparr>buckets = Map.empty, maxTokens = 3, refillIntervalMs = 3600000, tokensPerRefill = 3\<rparr>"

text \<open>
  A sequence of \<^verbatim>\<open>checkLimit\<close> calls for one key at the given clock readings:
  the booleans returned, in order, and the limiter at the end.
\<close>

fun checkLimits :: "RateLimiter \<Rightarrow> string \<Rightarrow> int list \<Rightarrow> bool list \<times> RateLimiter" where
  "checkLimits rl key [] = ([], rl)"
| "checkLimits rl key (t # ts) =
     (let (a, rl1) = checkLimit rl t key;
          (as, rl2) = checkLimits rl1 key ts
      in (a # as, rl2))"

text \<open>
  \<^verbatim>\<open>Math.ceil(retryAfterMs / 1000)\<close> of the POST handler.
\<close>

definition retryAfterSeconds :: "int \<Rightarrow> int" where
  "retryAfterSeconds retryAfterMs = \<lceil>real_of_int retryAfterMs / 1000\<rceil>"

section \<open>The output contract of the vision model\<close>

text \<open>
  The value \<^verbatim>\<open>JSON.parse\<close> returns.  An object is its list of properties (the first
  entry of a name is the property); a property that is absent reads as
  \<^verbatim>\<open>undefined\<close>, which is \<open>None\<close> here.  Numbers are taken as reals: the schema only
  compares them with 0 and 100.
\<close>

datatype json =
    JNull
  | JBool bool
  | JNum real
  | JStr string
  | JArr "json list"
  | JObj "(string \<times> json) list"

fun property :: "json \<Rightarrow> string \<Rightarrow> json option" where
  "property (JObj kvs) k = map_of kvs k"
| "property _ k = None"

datatype Severity = Low | Moderate | High

record SkinTrait =
  trait_id :: string
  trait_name :: string
  severity :: Severity
  description :: string

record VisionAnalysis =
  skinType :: string
  confidence :: real
  primaryConcern :: string
  traits :: "SkinTrait list"
  analysis_notes :: "string list"
  modelVersion :: string

text \<open>The zod validators used by the two schemas, on a property that may be absent.\<close>

fun z_string :: "json \<Rightarrow> string option" where
  "z_string (JStr s) = Some s"
| "z_string _ = None"

fun z_string_min1 :: "json option \<Rightarrow> string option" where
  "z_string_min1 (Some (JStr s)) = (if 1 \<le> length s then Some s else None)"
| "z_string_min1 _ = None"

fun z_enum :: "string list \<Rightarrow> json option \<Rightarrow> string option" where
  "z_enum vs (Some (JStr s)) = (if s \<in> set vs then Some s else None)"
| "z_enum vs _ = None"

fun z_number_min_max :: "real \<Rightarrow> real \<Rightarrow> json option \<Rightarrow> real option" where
  "z_number_min_max lo hi (Some (JNum x)) = (if lo \<le> x \<and> x \<le> hi then Some x else None)"
| "z_number_min_max lo hi _ = None"

fun z_severity :: "json option \<Rightarrow> Severity option" where
  "z_severity j =
     (case z_enum [''low'', ''moderate'', ''high''] j of
        None \<Rightarrow> None
      | Some s \<Rightarrow> Some (if s = ''low'' then Low else if s = ''moderate'' then Moderate else High))"

fun SkinTraitSchema :: "json \<Rightarrow> SkinTrait option" where
  "SkinTraitSchema (JObj kvs) =
     do {
       i \<leftarrow> z_string_min1 (map_of kvs ''id'');
       n \<leftarrow> z_string_min1 (map_of kvs ''name'');
       s \<leftarrow> z_severity (map_of kvs ''severity'');
       d \<leftarrow> z_string_min1 (map_of kvs ''description'');
       Some \<lparr>trait_id = i, trait_name = n, severity = s, description = d\<rparr>
     }"
| "SkinTraitSchema _ = None"

fun z_traits_min1 :: "json option \<Rightarrow> SkinTrait list option" where
  "z_traits_min1 (Some (JArr xs)) =
     (case those (map SkinTraitSchema xs) of
        None \<Rightarrow> None
      | Some ts \<Rightarrow> if 1 \<le> length ts then Some ts else None)"
| "z_traits_min1 _ = None"

fun z_notes_default :: "json option \<Rightarrow> string list option" where
  "z_notes_default None = Some []"
| "z_notes_default (Some (JArr xs)) = those (map z_string xs)"
| "z_notes_default (Some _) = None"

text \<open>\<^verbatim>\<open>VisionAnalysisSchema.safeParse(parsed)\<close>: the data on success, \<open>None\<close> on failure.\<close>

fun VisionAnalysisSchema :: "json \<Rightarrow> VisionAnalysis option" where
  "VisionAnalysisSchema (JObj kvs) =
     do {
       st \<leftarrow> z_enum [''Dry'', ''Oily'', ''Combination'', ''Normal'', ''Sensitive'']
               (map_of kvs ''skinType'');
       c \<leftarrow> z_number_min_max 0 100 (map_of kvs ''confidence'');
       pc \<leftarrow> z_string_min1 (map_of kvs ''primaryConcern'');
       ts \<leftarrow> z_traits_min1 (map_of kvs ''traits'');
       ns \<leftarrow> z_notes_default (map_of kvs ''notes'');
       mv \<leftarrow> z_string_min1 (map_of kvs ''modelVersion'');
       Some \<lparr>skinType = st, confidence = c, primaryConcern = pc, traits = ts, analysis_notes = ns,
             modelVersion = mv\<rparr>
     }"
| "VisionAnalysisSchema _ = None"

section \<open>The vision analysis client\<close>

datatype VisionErrorKind =
    WrongUrlCount nat
  | InvalidUrl string
  | EmptyResponse
  | NotValidJson
  | SchemaMismatch
  | AttemptsExhausted

datatype ImageErrorCode = missing_image | invalid_storage_url | signed_url_failed

text \<open>
  What the code can throw.  \<open>VisionAnalysisError k r\<close> carries the message (as its kind) and
  the \<^verbatim>\<open>retryable\<close> flag; \<open>APIError s\<close> is \<^verbatim>\<open>OpenAI.APIError\<close> with its
  \<^verbatim>\<open>status\<close> (absent for connection errors); \<open>AnalysisServiceError c\<close> carries the
  \<^verbatim>\<open>code\<close>, which fixes the user message.
\<close>

datatype exn =
    VisionAnalysisError VisionErrorKind bool
  | APIError "int option"
  | UnknownThrown
  | ImageRetrievalError ImageErrorCode
  | AnalysisServiceError string

record RetryConfig =
  maxAttempts :: nat
  baseDelayMs :: real
  maxDelayMs :: real

definition RETRY_CONFIG :: RetryConfig where
  "RETRY_CONFIG = \<lparr>maxAttempts = 3, baseDelayMs = 1000, maxDelayMs = 10000\<rparr>"

text \<open>
  The numbers of \<^verbatim>\<open>getRetryDelay\<close> are IEEE 754 doubles: every product and sum is
  rounded to the nearest double, ties to the even significand.  A double is a real here,
  and \<open>fl x\<close> is the double nearest to the real \<open>x\<close>: \<open>binade x\<close> is the exponent of
  \<open>x\<close> (the least normal exponent for the subnormal range), the doubles of that binade are
  the multiples of \<open>quantum x\<close> (53 significant bits), and \<open>round_even\<close> picks the
  multiple.  Results beyond the largest double, which the program turns into
  \<^verbatim>\<open>Infinity\<close>, are outside this model; \<^verbatim>\<open>callVision\<close> passes the attempts 0 and 1
  only, whose delays stay below 2600.
\<close>

definition emin :: int where
  "emin = - 1022"

definition emax :: int where
  "emax = 1023"

definition binade :: "real \<Rightarrow> int" where
  "binade x =
     (if 2 powi emin \<le> \<bar>x\<bar>
      then Max {e \<in> {emin .. emax}. 2 powi e \<le> \<bar>x\<bar>}
      else emin)"

definition quantum :: "real \<Rightarrow> real" where
  "quantum x = 2 powi (binade x - 52)"

definition round_even :: "real \<Rightarrow> int" where
  "round_even y =
     (let f = \<lfloor>y\<rfloor>; d = y - of_int f
      in if d < 1 / 2 then f
         else if 1 / 2 < d then f + 1
         else if even f then f else f + 1)"

definition fl :: "real \<Rightarrow> real" where
  "fl x = of_int (round_even (x / quantum x)) * quantum x"

text \<open>
  \<^verbatim>\<open>getRetryDelay(attempt)\<close>; \<open>rnd\<close> is the value \<^verbatim>\<open>Math.random()\<close> returned.
  \<^verbatim>\<open>Math.pow(2, attempt)\<close> is a power of two and exact; the literal \<^verbatim>\<open>0.3\<close> is the
  double \<open>fl (3 / 10)\<close>; \<^verbatim>\<open>Math.random() * 0.3 * exponentialDelay\<close> multiplies from
  the left.
\<close>

definition getRetryDelay :: "real \<Rightarrow> nat \<Rightarrow> real" where
  "getRetryDelay rnd attempt =
     (let exponentialDelay = fl (baseDelayMs RETRY_CONFIG * 2 ^ attempt);
          jitter = fl (fl (rnd * fl (3 / 10)) * exponentialDelay)
      in min (fl (exponentialDelay + jitter)) (maxDelayMs RETRY_CONFIG))"

fun isRetryableError :: "exn \<Rightarrow> bool" where
  "isRetryableError (APIError (Some s)) = (s = 429 \<or> (500 \<le> s \<and> s < 600))"
| "isRetryableError _ = False"

text \<open>
  What one call of \<^verbatim>\<open>openai.chat.completions.create\<close> does, as far as the client
  looks at it: it throws, or it returns a reply whose content is empty, is not JSON, or parses
  to a value.
\<close>

datatype provider_outcome =
    Throws_APIError "int option"
  | Throws_other
  | No_content
  | Unparsable_content
  | Parsed_content json

text \<open>The body of the \<^verbatim>\<open>try\<close> block after the delay: the value returned or the error thrown.\<close>

fun attempt_body :: "provider_outcome \<Rightarrow> exn + VisionAnalysis" where
  "attempt_body (Throws_APIError s) = Inl (APIError s)"
| "attempt_body Throws_other = Inl UnknownThrown"
| "attempt_body No_content = Inl (VisionAnalysisError EmptyResponse True)"
| "attempt_body Unparsable_content = Inl (VisionAnalysisError NotValidJson False)"
| "attempt_body (Parsed_content p) =
     (case VisionAnalysisSchema p of
        None \<Rightarrow> Inl (VisionAnalysisError SchemaMismatch False)
      | Some v \<Rightarrow> Inr v)"

fun nonretryable_vision_error :: "exn \<Rightarrow> bool" where
  "nonretryable_vision_error (VisionAnalysisError k r) = (\<not> r)"
| "nonretryable_vision_error _ = False"

text \<open>
  The result of a call, with what it did on the way: the number of requests sent to the
  provider and the delays slept, in order.
\<close>

record vision_call =
  outcome :: "exn + VisionAnalysis"
  attempts :: nat
  delays :: "real list"

definition all_retries_exhausted :: "nat \<Rightarrow> real list \<Rightarrow> vision_call" where
  "all_retries_exhausted n slept =
     \<lparr>outcome = Inl (VisionAnalysisError AttemptsExhausted False), attempts = n, delays = slept\<rparr>"

text \<open>
  The retry loop from \<open>attempt\<close> on.  \<open>provider k\<close> is the outcome of the request of
  attempt \<open>k\<close>, \<open>rnd k\<close> the random number drawn before it.
\<close>

function callVision_loop ::
  "(nat \<Rightarrow> provider_outcome) \<Rightarrow> (nat \<Rightarrow> real) \<Rightarrow> nat \<Rightarrow> real list \<Rightarrow> vision_call" where
  "callVision_loop provider rnd attempt slept =
     (if attempt < maxAttempts RETRY_CONFIG then
        (let slept1 = (if 0 < attempt
                       then slept @ [getRetryDelay (rnd attempt) (attempt - 1)] else slept)
         in case attempt_body (provider attempt) of
              Inr v \<Rightarrow> \<lparr>outcome = Inr v, attempts = attempt + 1, delays = slept1\<rparr>
            | Inl e \<Rightarrow>
                if nonretryable_vision_error e
                then \<lparr>outcome = Inl e, attempts = attempt + 1, delays = slept1\<rparr>
                else if attempt = maxAttempts RETRY_CONFIG - 1
                then all_retries_exhausted (attempt + 1) slept1
                else if \<not> isRetryableError e
                then \<lparr>outcome = Inl e, attempts = attempt + 1, delays = slept1\<rparr>
                else callVision_loop provider rnd (attempt + 1) slept1)
      else all_retries_exhausted attempt slept)"
  by pat_completeness auto
termination
  by (relation "measure (\<lambda>(provider, rnd, attempt, slept). maxAttempts RETRY_CONFIG - attempt)")
     auto

text \<open>
  \<^verbatim>\<open>callVision(imageUrls)\<close>.  \<open>URL_ok url\<close> says that \<^verbatim>\<open>new URL(url)\<close> does not throw.
\<close>

definition callVision ::
  "(string \<Rightarrow> bool) \<Rightarrow> (nat \<Rightarrow> provider_outcome) \<Rightarrow> (nat \<Rightarrow> real) \<Rightarrow> string list \<Rightarrow> vision_call" where
  "callVision URL_ok provider rnd imageUrls =
     (if length imageUrls \<noteq> 3
      then \<lparr>outcome = Inl (VisionAnalysisError (WrongUrlCount (length imageUrls)) False),
            attempts = 0, delays = []\<rparr>
      else case find (\<lambda>url. \<not> URL_ok url) imageUrls of
             Some url \<Rightarrow> \<lparr>outcome = Inl (VisionAnalysisError (InvalidUrl (take 50 url)) False),
                          attempts = 0, delays = []\<rparr>
           | None \<Rightarrow> callVision_loop provider rnd 0 [])"

section \<open>The summary mapper\<close>

text \<open>Timestamps (ISO strings in the source) are milliseconds since the epoch.\<close>

record AnalysisPoint =
  date :: int
  acne :: int
  dryness :: int
  pigmentation :: int

record AnalysisSummary =
  user_id :: string
  skin_type :: string
  summary_confidence :: real
  primary_concern :: string
  updatedAt :: int
  series :: "AnalysisPoint list"
  summary_notes :: "string list"
  summary_modelVersion :: string
  summary_detected_traits :: "SkinTrait list option"

fun severityMap :: "Severity \<Rightarrow> int" where
  "severityMap Low = 25"
| "severityMap Moderate = 55"
| "severityMap High = 85"

definition getTraitSeverity :: "SkinTrait list \<Rightarrow> string \<Rightarrow> int" where
  "getTraitSeverity ts traitId =
     (case find (\<lambda>t. trait_id t = traitId) ts of
        None \<Rightarrow> 0
      | Some trait \<Rightarrow> severityMap (severity trait))"

definition skinTypeMap :: "string \<rightharpoonup> string" where
  "skinTypeMap =
     map_of [(''Dry'', ''dry''), (''Oily'', ''oily''), (''Combination'', ''combination''),
             (''Normal'', ''normal''), (''Sensitive'', ''sensitive'')]"

definition mapVisionToSummary :: "string \<Rightarrow> VisionAnalysis \<Rightarrow> int \<Rightarrow> AnalysisSummary" where
  "mapVisionToSummary userId visionResult completedAt =
     \<lparr>user_id = userId,
      skin_type = (case skinTypeMap (skinType visionResult) of Some l \<Rightarrow> l | None \<Rightarrow> ''normal''),
      summary_confidence = confidence visionResult / 100,
      primary_concern = primaryConcern visionResult,
      updatedAt = completedAt,
      series = [\<lparr>date = completedAt,
                 acne = getTraitSeverity (traits visionResult) ''acne'',
                 dryness = getTraitSeverity (traits visionResult) ''dryness'',
                 pigmentation = getTraitSeverity (traits visionResult) ''hyperpigmentation''\<rparr>],
      summary_notes = analysis_notes visionResult,
      summary_modelVersion = modelVersion visionResult,
      summary_detected_traits = None\<rparr>"

section \<open>Image locator and signed access\<close>

datatype ImageAngle = front | left_45 | right_45

record UploadedImageRecord =
  image_id :: string
  image_user_id :: string
  angle :: ImageAngle
  storage_url :: string
  image_created_at :: int
  deleted_at :: "int option"

text \<open>
  The query of \<^verbatim>\<open>getUserImagesForAngles\<close> for one angle: the owner's rows of that
  angle that are not deleted, newest first, the first one; \<^verbatim>\<open>.single()\<close> reports an
  error when there is none.
\<close>

definition latest_image :: "UploadedImageRecord list \<Rightarrow> string \<Rightarrow> ImageAngle \<Rightarrow> UploadedImageRecord option" where
  "latest_image uploaded_images userId a =
     (case sort_key (\<lambda>r. - image_created_at r)
             (filter (\<lambda>r. image_user_id r = userId \<and> angle r = a \<and> deleted_at r = None)
                uploaded_images) of
        [] \<Rightarrow> None
      | r # rs \<Rightarrow> Some r)"

fun getUserImagesForAngles ::
  "UploadedImageRecord list \<Rightarrow> string \<Rightarrow> ImageAngle list \<Rightarrow> exn + UploadedImageRecord list" where
  "getUserImagesForAngles uploaded_images userId [] = Inr []"
| "getUserImagesForAngles uploaded_images userId (a # angles) =
     (case latest_image uploaded_images userId a of
        None \<Rightarrow> Inl (ImageRetrievalError missing_image)
      | Some r \<Rightarrow>
          (case getUserImagesForAngles uploaded_images userId angles of
             Inl e \<Rightarrow> Inl e
           | Inr rs \<Rightarrow> Inr (r # rs)))"

text \<open>
  The loop of \<^verbatim>\<open>getSignedImageUrls\<close> over the rows.  \<open>sign row\<close> stands for
  \<^verbatim>\<open>extractStoragePath\<close> followed by \<^verbatim>\<open>getSignedUrl\<close> on the row's storage URL: the
  signed URL, or the error code of the \<^verbatim>\<open>ImageRetrievalError\<close> one of them throws.
\<close>

fun sign_rows ::
  "(UploadedImageRecord \<Rightarrow> ImageErrorCode + string) \<Rightarrow> UploadedImageRecord list \<Rightarrow> exn + string list" where
  "sign_rows sign [] = Inr []"
| "sign_rows sign (row # rows) =
     (case sign row of
        Inl c \<Rightarrow> Inl (ImageRetrievalError c)
      | Inr url \<Rightarrow>
          (case sign_rows sign rows of
             Inl e \<Rightarrow> Inl e
           | Inr urls \<Rightarrow> Inr (url # urls)))"

record SignedImageUrlsResult =
  rows :: "UploadedImageRecord list"
  urls :: "string list"
  imageIds :: "string list"

definition getSignedImageUrls ::
  "UploadedImageRecord list \<Rightarrow> (UploadedImageRecord \<Rightarrow> ImageErrorCode + string) \<Rightarrow> string
     \<Rightarrow> exn + SignedImageUrlsResult" where
  "getSignedImageUrls uploaded_images sign userId =
     (case getUserImagesForAngles uploaded_images userId [front, left_45, right_45] of
        Inl e \<Rightarrow> Inl e
      | Inr rs \<Rightarrow>
          (case sign_rows sign rs of
             Inl e \<Rightarrow> Inl e
           | Inr us \<Rightarrow> Inr \<lparr>rows = rs, urls = us, imageIds = map image_id rs\<rparr>))"

section \<open>The analysis orchestrator\<close>

datatype Status = uploading | screening | detecting | generating | complete | error

text \<open>
  A row of \<^verbatim>\<open>skin_analyses\<close>.  \<open>error_message\<close> holds the error whose message the
  code stores.
\<close>

record AnalysisRow =
  row_id :: nat
  row_user_id :: string
  status :: Status
  detected_traits :: "SkinTrait list"
  confidence_score :: "real option"
  image_ids :: "string list"
  created_at :: int
  completed_at :: "int option"
  error_message :: "exn option"

text \<open>
  Everything outside the code that one request meets: the session, the clock readings, the
  stored images, the storage service, the model provider and the database's answers to the
  two writes whose error the code inspects.
\<close>

record world =
  session_user :: "string option"
  now_checkLimit :: int
  now_getRetryAfter :: int
  now_created :: int
  now_completed :: int
  insert_ok :: bool
  save_ok :: bool
  uploaded_images :: "UploadedImageRecord list"
  sign :: "UploadedImageRecord \<Rightarrow> ImageErrorCode + string"
  URL_ok :: "string \<Rightarrow> bool"
  provider :: "nat \<Rightarrow> provider_outcome"
  random :: "nat \<Rightarrow> real"

text \<open>\<^verbatim>\<open>.update(f).eq('id', analysisId)\<close>.\<close>

definition update_eq_id :: "(AnalysisRow \<Rightarrow> AnalysisRow) \<Rightarrow> nat \<Rightarrow> AnalysisRow list \<Rightarrow> AnalysisRow list" where
  "update_eq_id f analysisId table = map (\<lambda>r. if row_id r = analysisId then f r else r) table"

definition fresh_id :: "AnalysisRow list \<Rightarrow> nat" where
  "fresh_id table = Suc (fold max (map row_id table) 0)"

text \<open>
  What a run of the orchestrator leaves: the summary returned or the error thrown, the table,
  the number of requests sent to the model provider, and the statuses written to the run's
  row, in order.
\<close>

record analysis_run =
  result :: "exn + AnalysisSummary"
  table :: "AnalysisRow list"
  model_requests :: nat
  status_writes :: "Status list"

text \<open>
  The \<^verbatim>\<open>catch\<close> block of \<^verbatim>\<open>startOpenAIVisionAnalysis\<close>: the update of the row when
  there is one, and the error thrown on.  This update and the status updates of steps 2 to 4,
  whose results the code does not look at, take effect.
\<close>

fun rethrown :: "exn \<Rightarrow> exn" where
  "rethrown (ImageRetrievalError c) = AnalysisServiceError ''missing_images''"
| "rethrown (VisionAnalysisError k r) = AnalysisServiceError ''vision_api_failed''"
| "rethrown (AnalysisServiceError c) = AnalysisServiceError c"
| "rethrown e = AnalysisServiceError ''unknown_error''"

definition catch_block ::
  "AnalysisRow list \<Rightarrow> nat option \<Rightarrow> exn \<Rightarrow> nat \<Rightarrow> Status list \<Rightarrow> analysis_run" where
  "catch_block tbl analysisId e requests written =
     (case analysisId of
        Some i \<Rightarrow>
          \<lparr>result = Inl (rethrown e),
           table = update_eq_id (\<lambda>r. r\<lparr>status := error, error_message := Some e\<rparr>) i tbl,
           model_requests = requests,
           status_writes = written @ [error]\<rparr>
      | None \<Rightarrow>
          \<lparr>result = Inl (rethrown e), table = tbl, model_requests = requests,
           status_writes = written\<rparr>)"

text \<open>The row that step 1 inserts; the database supplies the id and the creation time.\<close>

definition new_row :: "world \<Rightarrow> AnalysisRow list \<Rightarrow> string \<Rightarrow> AnalysisRow" where
  "new_row w tbl userId =
     \<lparr>row_id = fresh_id tbl, row_user_id = userId, status = uploading,
      detected_traits = [], confidence_score = None, image_ids = [],
      created_at = now_created w, completed_at = None, error_message = None\<rparr>"

definition startOpenAIVisionAnalysis :: "world \<Rightarrow> AnalysisRow list \<Rightarrow> string \<Rightarrow> analysis_run" where
  "startOpenAIVisionAnalysis w tbl userId =
     (if \<not> insert_ok w
      then catch_block tbl None (AnalysisServiceError ''db_create_failed'') 0 []
      else
        let analysisId = fresh_id tbl;
            t1 = tbl @ [new_row w tbl userId];
            t2 = update_eq_id (\<lambda>r. r\<lparr>status := screening\<rparr>) analysisId t1
        in case getSignedImageUrls (uploaded_images w) (sign w) userId of
             Inl e \<Rightarrow> catch_block t2 (Some analysisId) e 0 [uploading, screening]
           | Inr signed \<Rightarrow>
               let t3 = update_eq_id (\<lambda>r. r\<lparr>status := detecting\<rparr>) analysisId t2;
                   call = callVision (URL_ok w) (provider w) (random w) (urls signed)
               in case outcome call of
                    Inl e \<Rightarrow> catch_block t3 (Some analysisId) e (attempts call)
                               [uploading, screening, detecting]
                  | Inr visionResult \<Rightarrow>
                      let t4 = update_eq_id (\<lambda>r. r\<lparr>status := generating\<rparr>) analysisId t3;
                          completedAt = now_completed w
                      in if \<not> save_ok w
                         then catch_block t4 (Some analysisId)
                                (AnalysisServiceError ''db_update_failed'') (attempts call)
                                [uploading, screening, detecting, generating]
                         else
                           \<lparr>result = Inr (mapVisionToSummary userId visionResult completedAt),
                            table = update_eq_id
                                      (\<lambda>r. r\<lparr>detected_traits := traits visionResult,
                                              confidence_score := Some (confidence visionResult),
                                              image_ids := imageIds signed,
                                              completed_at := Some completedAt,
                                              status := complete\<rparr>) analysisId t4,
                            model_requests = attempts call,
                            status_writes = [uploading, screening, detecting, generating, complete]\<rparr>)"

section \<open>The two routes\<close>

datatype http_response =
    Unauthorized_401
  | Rate_limit_exceeded_429 int
  | Ok_200 AnalysisSummary
  | Fail nat string
  | Success_null_200
  | Json_200 AnalysisSummary

text \<open>The process state the routes share: the limiter instance and the table.\<close>

record server =
  limiter :: RateLimiter
  skin_analyses :: "AnalysisRow list"

record post_run =
  response :: http_response
  server_after :: server
  provider_requests :: nat
  row_writes :: "Status list"

text \<open>\<^verbatim>\<open>POST /api/analysis/start\<close>.\<close>

definition POST :: "world \<Rightarrow> server \<Rightarrow> post_run" where
  "POST w srv =
     (case session_user w of
        None \<Rightarrow> \<lparr>response = Unauthorized_401, server_after = srv, provider_requests = 0,
                  row_writes = []\<rparr>
      | Some uid \<Rightarrow>
          (let (allowed, rl1) = checkLimit (limiter srv) (now_checkLimit w) uid
           in if \<not> allowed
              then \<lparr>response = Rate_limit_exceeded_429
                                 (retryAfterSeconds (getRetryAfter rl1 (now_getRetryAfter w) uid)),
                    server_after = srv\<lparr>limiter := rl1\<rparr>, provider_requests = 0,
                    row_writes = []\<rparr>
              else
                (let run = startOpenAIVisionAnalysis w (skin_analyses srv) uid
                 in \<lparr>response =
                        (case result run of
                           Inr summary \<Rightarrow> Ok_200 summary
                         | Inl (AnalysisServiceError c) \<Rightarrow>
                             Fail (if c = ''missing_images'' then 400 else 500) c
                         | Inl _ \<Rightarrow> Fail 500 ''internal_server_error''),
                      server_after = \<lparr>limiter = rl1, skin_analyses = table run\<rparr>,
                      provider_requests = model_requests run,
                      row_writes = status_writes run\<rparr>)))"

text \<open>
  The query of \<^verbatim>\<open>GET /api/analysis/latest\<close>: the owner's rows with status
  \<^verbatim>\<open>complete\<close>, ordered by \<^verbatim>\<open>completed_at\<close> descending (rows without the
  timestamp come first in that order, as in PostgreSQL; rows with equal timestamps keep
  the order of the table), at most one.
\<close>

definition order_completed_at_desc :: "AnalysisRow list \<Rightarrow> AnalysisRow list" where
  "order_completed_at_desc rs =
     filter (\<lambda>r. completed_at r = None) rs @
     sort_key (\<lambda>r. case completed_at r of Some t \<Rightarrow> - t | None \<Rightarrow> 0)
       (filter (\<lambda>r. completed_at r \<noteq> None) rs)"

definition latest_completed :: "AnalysisRow list \<Rightarrow> string \<Rightarrow> AnalysisRow option" where
  "latest_completed tbl uid =
     (case order_completed_at_desc
             (filter (\<lambda>r. row_user_id r = uid \<and> status r = complete) tbl) of
        [] \<Rightarrow> None
      | r # rs \<Rightarrow> Some r)"

fun severityOrder :: "Severity \<Rightarrow> int" where
  "severityOrder High = 3"
| "severityOrder Moderate = 2"
| "severityOrder Low = 1"

text \<open>
  The summary the route builds from the row.  \<open>env_model\<close> is
  \<^verbatim>\<open>process.env.OPENAI_VISION_MODEL\<close>.
\<close>

definition latest_summary :: "string option \<Rightarrow> string \<Rightarrow> AnalysisRow \<Rightarrow> AnalysisSummary" where
  "latest_summary env_model uid analysis =
     (let ts = detected_traits analysis;
          hasOiliness = list_ex (\<lambda>t. trait_id t = ''oiliness'' \<and> severity t \<noteq> Low) ts;
          hasDryness = list_ex (\<lambda>t. trait_id t = ''dryness'' \<and> severity t \<noteq> Low) ts;
          hasSensitivity = list_ex (\<lambda>t. trait_id t = ''sensitivity'' \<and> severity t \<noteq> Low) ts;
          skinType = (if hasOiliness \<and> hasDryness then ''combination''
                      else if hasOiliness then ''oily''
                      else if hasDryness then ''dry''
                      else if hasSensitivity then ''sensitive''
                      else ''normal'');
          sortedTraits = sort_key (\<lambda>t. - severityOrder (severity t)) ts;
          primaryConcern = (case sortedTraits of
                              [] \<Rightarrow> ''No major concerns''
                            | t # rest \<Rightarrow> if trait_name t = [] then ''No major concerns''
                                         else trait_name t);
          ns = take 4 (map (\<lambda>t. trait_name t @ '': '' @ description t)
                         (filter (\<lambda>t. severity t \<noteq> Low) ts));
          stamp = (case completed_at analysis of Some t \<Rightarrow> t | None \<Rightarrow> created_at analysis)
      in \<lparr>user_id = uid,
          skin_type = skinType,
          summary_confidence = (case confidence_score analysis of Some c \<Rightarrow> c | None \<Rightarrow> 0) / 100,
          primary_concern = primaryConcern,
          updatedAt = stamp,
          series = [\<lparr>date = stamp,
                     acne = getTraitSeverity ts ''acne'',
                     dryness = getTraitSeverity ts ''dryness'',
                     pigmentation = getTraitSeverity ts ''hyperpigmentation''\<rparr>],
          summary_notes = (if ns \<noteq> [] then ns
                           else [''Analysis complete. Check your routine recommendations.'']),
          summary_modelVersion = (case env_model of
                                    None \<Rightarrow> ''gpt-4o-mini''
                                  | Some m \<Rightarrow> if m = [] then ''gpt-4o-mini'' else m),
          summary_detected_traits = Some ts\<rparr>)"

text \<open>
  \<^verbatim>\<open>GET /api/analysis/latest\<close>.  \<open>query_ok\<close> says that the database answered the query
  without an error.  The route only reads the table, so its result is the response alone.
\<close>

definition GET :: "string option \<Rightarrow> bool \<Rightarrow> string option \<Rightarrow> AnalysisRow list \<Rightarrow> http_response" where
  "GET session query_ok env_model tbl =
     (case session of
        None \<Rightarrow> Fail 401 ''unauthorized''
      | Some uid \<Rightarrow>
          if \<not> query_ok then Fail 500 ''db_error''
          else case latest_completed tbl uid of
                 None \<Rightarrow> Success_null_200
               | Some analysis \<Rightarrow> Json_200 (latest_summary env_model uid analysis))"

section \<open>Notions used to state the properties\<close>

text \<open>
  An attempt fails retryably when what it throws passes \<^verbatim>\<open>isRetryableError\<close>.
\<close>

definition retryable_failure :: "provider_outcome \<Rightarrow> bool" where
  "retryable_failure po =
     (case attempt_body po of Inl e \<Rightarrow> isRetryableError e | Inr v \<Rightarrow> False)"

text \<open>The delays slept once attempt \<open>a\<close> has waited, given those slept before it.\<close>

definition slept_before :: "(nat \<Rightarrow> real) \<Rightarrow> nat \<Rightarrow> real list \<Rightarrow> real list" where
  "slept_before r a sl = (if 0 < a then sl @ [getRetryDelay (r a) (a - 1)] else sl)"

text \<open>The multiples of \<open>2 powi z\<close>: the grid on which the doubles of a binade lie.\<close>

definition on_grid :: "int \<Rightarrow> real \<Rightarrow> bool" where
  "on_grid z y = (\<exists>m::int. y = of_int m * 2 powi z)"

text \<open>
  The payloads the schema-rejection property speaks of: one of the four required fields is
  missing, the confidence is a number outside [0, 100], the traits are the empty sequence,
  or the skin type is a string outside the five categories.
\<close>

definition violates_contract :: "json \<Rightarrow> bool" where
  "violates_contract p =
     (property p ''skinType'' = None \<or> property p ''confidence'' = None \<or>
      property p ''primaryConcern'' = None \<or> property p ''traits'' = None \<or>
      (case property p ''confidence'' of Some (JNum c) \<Rightarrow> c < 0 \<or> 100 < c | _ \<Rightarrow> False) \<or>
      property p ''traits'' = Some (JArr []) \<or>
      (case property p ''skinType'' of
         Some (JStr s) \<Rightarrow> s \<notin> set [''Dry'', ''Oily'', ''Combination'', ''Normal'', ''Sensitive'']
       | _ \<Rightarrow> False))"

text \<open>
  The tokens a request finds for its owner: the full capacity when the owner has no bucket
  yet, the bucket's tokens after the refill step otherwise.
\<close>

definition tokens_available :: "RateLimiter \<Rightarrow> int \<Rightarrow> string \<Rightarrow> jsnum" where
  "tokens_available rl now key =
     (case buckets rl key of
        None \<Rightarrow> Num (maxTokens rl)
      | Some b \<Rightarrow> tokens (refill rl now b))"

section \<open>Example inputs\<close>

definition scenario_B :: VisionAnalysis where
  "scenario_B =
     \<lparr>skinType = ''Combination'', confidence = 87, primaryConcern = ''acne'',
      traits = [\<lparr>trait_id = ''acne'', trait_name = ''Acne'', severity = High,
                 description = ''a''\<rparr>,
                \<lparr>trait_id = ''dryness'', trait_name = ''Dryness'', severity = Moderate,
                 description = ''b''\<rparr>,
                \<lparr>trait_id = ''hyperpigmentation'', trait_name = ''Spots'', severity = Low,
                 description = ''c''\<rparr>],
      analysis_notes = [], modelVersion = ''m1''\<rparr>"


definition example_payload :: json where
  "example_payload =
     JObj [(''skinType'', JStr ''Dry''), (''confidence'', JNum 85),
           (''primaryConcern'', JStr ''Breakouts''),
           (''traits'', JArr [JObj [(''id'', JStr ''acne''), (''name'', JStr ''Acne''),
                                    (''severity'', JStr ''high''),
                                    (''description'', JStr ''Active breakouts'')]]),
           (''notes'', JArr [JStr ''Use a gentle cleanser'']),
           (''modelVersion'', JStr ''gpt-4o-mini'')]"

text \<open>What the schema makes of the example payload.\<close>

definition example_analysis :: VisionAnalysis where
  "example_analysis =
     \<lparr>skinType = ''Dry'', confidence = 85, primaryConcern = ''Breakouts'',
      traits = [\<lparr>trait_id = ''acne'', trait_name = ''Acne'', severity = High,
                 description = ''Active breakouts''\<rparr>],
      analysis_notes = [''Use a gentle cleanser''], modelVersion = ''gpt-4o-mini''\<rparr>"

definition example_image :: "ImageAngle \<Rightarrow> UploadedImageRecord" where
  "example_image a =
     \<lparr>image_id = ''img'', image_user_id = ''owner'', angle = a,
      storage_url = ''https://project.supabase.co/storage/v1/object/public/user-photos/owner/a.jpg'',
      image_created_at = 1, deleted_at = None\<rparr>"

definition example_world :: world where
  "example_world =
     \<lparr>session_user = Some ''owner'', now_checkLimit = 10, now_getRetryAfter = 11,
      now_created = 12, now_completed = 20, insert_ok = True, save_ok = True,
      uploaded_images = [example_image front, example_image left_45, example_image right_45],
      sign = (\<lambda>row. Inr ''https://signed.example/a.jpg''), URL_ok = (\<lambda>url. True),
      provider = (\<lambda>k. Parsed_content example_payload), random = (\<lambda>k. 1 / 2)\<rparr>"

definition example_signed :: SignedImageUrlsResult where
  "example_signed =
     \<lparr>rows = [example_image front, example_image left_45, example_image right_45],
      urls = [''https://signed.example/a.jpg'', ''https://signed.example/a.jpg'',
              ''https://signed.example/a.jpg''],
      imageIds = [''img'', ''img'', ''img'']\<rparr>"

text \<open>The same world for an owner who has uploaded no image for the angle \<^verbatim>\<open>left_45\<close>.\<close>

definition example_world_missing_left :: world where
  "example_world_missing_left =
     example_world\<lparr>uploaded_images := [example_image front, example_image right_45]\<rparr>"

text \<open>
  A world whose provider first answers 429 and then replies with a payload whose traits
  are empty.
\<close>

definition example_payload_no_traits :: json where
  "example_payload_no_traits =
     JObj [(''skinType'', JStr ''Oily''), (''confidence'', JNum 80),
           (''primaryConcern'', JStr ''Shine''), (''traits'', JArr []),
           (''notes'', JArr []), (''modelVersion'', JStr ''gpt-4o-mini'')]"

definition example_world_no_traits :: world where
  "example_world_no_traits =
     example_world\<lparr>provider := (\<lambda>k. if k = 0 then Throws_APIError (Some 429)
                                   else Parsed_content example_payload_no_traits)\<rparr>"

text \<open>The row the run of the example world leaves in an empty table.\<close>

definition example_row :: AnalysisRow where
  "example_row =
     \<lparr>row_id = 1, row_user_id = ''owner'', status = complete,
      detected_traits = traits example_analysis, confidence_score = Some 85,
      image_ids = [''img'', ''img'', ''img''], created_at = 12,
      completed_at = Some 20, error_message = None\<rparr>"

text \<open>
  A table with rows of two owners: the example row (completed at 20), a complete row of
  another owner (completed at 40), a failed and an unfinished run of the owner, and a
  second complete row of the owner (completed at 30).
\<close>

definition example_row_newest :: AnalysisRow where
  "example_row_newest =
     \<lparr>row_id = 5, row_user_id = ''owner'', status = complete,
      detected_traits = [\<lparr>trait_id = ''dryness'', trait_name = ''Dryness'', severity = Moderate,
                           description = ''Dry patches''\<rparr>],
      confidence_score = Some 90, image_ids = [''img'', ''img'', ''img''], created_at = 28,
      completed_at = Some 30, error_message = None\<rparr>"

definition example_table :: "AnalysisRow list" where
  "example_table =
     [example_row,
      example_row\<lparr>row_id := 2, row_user_id := ''other'', completed_at := Some 40\<rparr>,
      example_row\<lparr>row_id := 3, status := error, completed_at := None,
                   error_message := Some (ImageRetrievalError missing_image)\<rparr>,
      example_row\<lparr>row_id := 4, status := generating, completed_at := None\<rparr>,
      example_row_newest]"

definition example_server :: server where
  "example_server = \<lparr>limiter = rateLimiter, skin_analyses = []\<rparr>"

section \<open>Properties of the rate limiter\<close>

text \<open>
  Inside a window of positive length a bucket is not refilled: a call takes a token when
  one is left and is refused otherwise, and the time of the last refill stays.
\<close>

lemma checkLimit_inside_window:
  assumes "buckets rl key = Some \<lparr>tokens = Num n, lastRefill = t0\<rparr>"
    and "0 < refillIntervalMs rl" and "t0 \<le> t" and "t < t0 + refillIntervalMs rl"
  shows "checkLimit rl t key =
           (if 0 < n
            then (True, rl\<lparr>buckets := (buckets rl)(key \<mapsto>
                                \<lparr>tokens = Num (n - 1), lastRefill = t0\<rparr>)\<rparr>)
            else (False, rl\<lparr>buckets := (buckets rl)(key \<mapsto>
                                \<lparr>tokens = Num n, lastRefill = t0\<rparr>)\<rparr>))"
proof -
  have "(t - t0) div refillIntervalMs rl = 0"
    using assms by (simp add: div_pos_pos_trivial)
  then show ?thesis
    using assms by (simp add: checkLimit_def refill_def Let_def)
qed

lemma checkLimits_inside_window:
  assumes "buckets rl key = Some \<lparr>tokens = Num (int n), lastRefill = t0\<rparr>"
    and "0 < refillIntervalMs rl"
    and "\<forall>t\<in>set ts. t0 \<le> t \<and> t < t0 + refillIntervalMs rl"
  shows "fst (checkLimits rl key ts) =
           replicate (min n (length ts)) True @ replicate (length ts - n) False"
  using assms
proof (induction ts arbitrary: rl n)
  case Nil
  then show ?case by simp
next
  case (Cons t ts)
  have w: "t0 \<le> t" "t < t0 + refillIntervalMs rl"
    using Cons.prems by auto
  note step = checkLimit_inside_window [OF Cons.prems(1) Cons.prems(2) w]
  show ?case
  proof (cases n)
    case 0
    let ?rl = "rl\<lparr>buckets := (buckets rl)(key \<mapsto> \<lparr>tokens = Num 0, lastRefill = t0\<rparr>)\<rparr>"
    have "fst (checkLimits ?rl key ts) =
            replicate (min 0 (length ts)) True @ replicate (length ts - 0) False"
      using Cons.prems by (intro Cons.IH) auto
    then show ?thesis
      using step 0 by (simp add: split_def)
  next
    case (Suc m)
    let ?rl = "rl\<lparr>buckets := (buckets rl)(key \<mapsto> \<lparr>tokens = Num (int m), lastRefill = t0\<rparr>)\<rparr>"
    have "fst (checkLimits ?rl key ts) =
            replicate (min m (length ts)) True @ replicate (length ts - m) False"
      using Cons.prems by (intro Cons.IH) auto
    then show ?thesis
      using step Suc by (simp add: split_def)
  qed
qed

text \<open>
  With the window the comment documents (one hour), the first request of an owner and the
  next two inside the hour are admitted and every further one inside the hour is refused.
\<close>

lemma documented_limiter_window:
  assumes "\<forall>t\<in>set ts. t0 \<le> t \<and> t < t0 + 3600000"
  shows "fst (checkLimits rateLimiter_documented key (t0 # ts)) =
           True # replicate (min 2 (length ts)) True @ replicate (length ts - 2) False"
proof -
  let ?rl = "rateLimiter_documented\<lparr>buckets := (buckets rateLimiter_documented)(key \<mapsto>
               \<lparr>tokens = Num (int 2), lastRefill = t0\<rparr>)\<rparr>"
  have first: "checkLimit rateLimiter_documented t0 key = (True, ?rl)"
    by (simp add: checkLimit_def rateLimiter_documented_def)
  have "fst (checkLimits ?rl key ts) =
          replicate (min 2 (length ts)) True @ replicate (length ts - 2) False"
    using assms by (intro checkLimits_inside_window) (auto simp: rateLimiter_documented_def)
  then show ?thesis
    using first by (simp add: split_def)
qed

text \<open>
  With a refill interval of 0 ms, as in the instance the route uses, the retry-after of an
  existing bucket is 0 at every reading of the clock that is not before the last refill.
\<close>

lemma zero_interval_retry_after:
  assumes "refillIntervalMs rl = 0" and "buckets rl key = Some b" and "lastRefill b \<le> now"
  shows "getRetryAfter rl now key = 0"
  using assms by (simp add: getRetryAfter_def)

text \<open>
  C1 (violated by the code).  The claim: inside one window \<^verbatim>\<open>checkLimit\<close> admits at
  most 3 requests of an owner, the next one is refused, and a refused request is reported
  with a positive retry-after.  The instance the route uses is built with a refill interval
  of 0 ms: four requests of one owner one second apart are all admitted; and when a request
  is refused (four requests in the same millisecond), the retry-after it is reported with
  is 0 seconds.
\<close>

theorem C1_limiter_admits_fourth_request:
  "fst (checkLimits rateLimiter ''owner'' [0, 1000, 2000, 3000]) = [True, True, True, True] \<and>
   fst (checkLimits rateLimiter ''owner'' [0, 0, 0, 0]) = [True, True, True, False] \<and>
   retryAfterSeconds
     (getRetryAfter (snd (checkLimits rateLimiter ''owner'' [0, 0, 0, 0])) 0 ''owner'') = 0"
  by (simp add: rateLimiter_def checkLimit_def refill_def getRetryAfter_def retryAfterSeconds_def)

section \<open>Properties of the retry loop\<close>

text \<open>
  The loop's equation is used through the three lemmas \<open>loop_stop\<close>, \<open>loop_continue\<close>
  and \<open>loop_end\<close> below, never unfolded by the simplifier on its own.
\<close>

declare callVision_loop.simps [simp del]


lemma isRetryableError_iff:
  "isRetryableError e \<longleftrightarrow> (\<exists>s. e = APIError (Some s) \<and> (s = 429 \<or> (500 \<le> s \<and> s < 600)))"
  by (cases e rule: isRetryableError.cases) auto

lemma retryable_failure_iff:
  "retryable_failure po \<longleftrightarrow>
     (\<exists>s. po = Throws_APIError (Some s) \<and> (s = 429 \<or> (500 \<le> s \<and> s < 600)))"
  by (cases po) (auto simp: retryable_failure_def isRetryableError_iff split: option.splits)

lemma retryable_not_vision: "isRetryableError e \<Longrightarrow> \<not> nonretryable_vision_error e"
  by (auto simp: isRetryableError_iff)

lemma loop_stop: "\<not> a < 3 \<Longrightarrow> callVision_loop p r a sl = all_retries_exhausted a sl"
  by (subst callVision_loop.simps) (simp add: RETRY_CONFIG_def)

lemma loop_continue:
  assumes "a < 2" and "retryable_failure (p a)"
  shows "callVision_loop p r a sl = callVision_loop p r (Suc a) (slept_before r a sl)"
proof -
  obtain e where e: "attempt_body (p a) = Inl e" "isRetryableError e"
    using assms(2) by (auto simp: retryable_failure_def split: sum.splits)
  then show ?thesis
    using assms(1) retryable_not_vision [OF e(2)]
    by (subst callVision_loop.simps) (simp add: RETRY_CONFIG_def slept_before_def)
qed

lemma loop_end:
  assumes "a < 3" and "a = 2 \<or> \<not> retryable_failure (p a)"
  shows "callVision_loop p r a sl =
           \<lparr>outcome = (case attempt_body (p a) of
                         Inr v \<Rightarrow> Inr v
                       | Inl e \<Rightarrow> if nonretryable_vision_error e then Inl e
                                  else if a = 2 then Inl (VisionAnalysisError AttemptsExhausted False)
                                  else Inl e),
            attempts = Suc a, delays = slept_before r a sl\<rparr>"
  using assms
  by (subst callVision_loop.simps)
     (auto simp: RETRY_CONFIG_def slept_before_def all_retries_exhausted_def
         retryable_failure_def split: sum.splits)

lemma loop_attempts_le:
  "a \<le> 3 \<Longrightarrow> attempts (callVision_loop p r a sl) \<le> 3"
proof (induction "3 - a" arbitrary: a sl)
  case 0
  then show ?case by (simp add: loop_stop all_retries_exhausted_def)
next
  case (Suc n)
  then have a: "a < 3" by simp
  show ?case
  proof (cases "a = 2 \<or> \<not> retryable_failure (p a)")
    case True
    then show ?thesis using a by (simp add: loop_end)
  next
    case False
    then have "callVision_loop p r a sl = callVision_loop p r (Suc a) (slept_before r a sl)"
      using a by (intro loop_continue) auto
    moreover have "attempts (callVision_loop p r (Suc a) (slept_before r a sl)) \<le> 3"
      using Suc.hyps(2) a by (intro Suc.hyps(1)) auto
    ultimately show ?thesis by simp
  qed
qed

lemma loop_attempts_gt:
  "a < 3 \<Longrightarrow> a < attempts (callVision_loop p r a sl)"
proof (induction "3 - a" arbitrary: a sl)
  case 0
  then show ?case by simp
next
  case (Suc n)
  show ?case
  proof (cases "a = 2 \<or> \<not> retryable_failure (p a)")
    case True
    then show ?thesis using Suc.prems by (simp add: loop_end)
  next
    case False
    then have eq: "callVision_loop p r a sl = callVision_loop p r (Suc a) (slept_before r a sl)"
      using Suc.prems by (intro loop_continue) auto
    have "Suc a < attempts (callVision_loop p r (Suc a) (slept_before r a sl))"
      using Suc.hyps(2) False Suc.prems by (intro Suc.hyps(1)) auto
    then show ?thesis using eq by simp
  qed
qed

text \<open>A further attempt is made only after a retryable failure.\<close>
lemma loop_next_attempt:
  "a \<le> k \<Longrightarrow> Suc k < attempts (callVision_loop p r a sl) \<Longrightarrow> retryable_failure (p k)"
proof (induction "3 - a" arbitrary: a sl)
  case 0
  then show ?case by (simp add: loop_stop all_retries_exhausted_def)
next
  case (Suc n)
  then have a: "a < 3" by simp
  show ?case
  proof (cases "a = 2 \<or> \<not> retryable_failure (p a)")
    case True
    then show ?thesis using a Suc.prems by (simp add: loop_end)
  next
    case False
    then have eq: "callVision_loop p r a sl = callVision_loop p r (Suc a) (slept_before r a sl)"
      using a by (intro loop_continue) auto
    show ?thesis
    proof (cases "k = a")
      case True
      then show ?thesis using False by simp
    next
      case False
      then have "Suc a \<le> k" using Suc.prems(1) by simp
      moreover have "3 - Suc a = n" using Suc.hyps(2) by simp
      ultimately show ?thesis
        using Suc.hyps(1) [of "Suc a" "slept_before r a sl"] Suc.prems(2) eq by simp
    qed
  qed
qed

text \<open>An attempt that does not fail retryably is the last one.\<close>
lemma loop_last_attempt:
  "a \<le> k \<Longrightarrow> k < attempts (callVision_loop p r a sl) \<Longrightarrow> \<not> retryable_failure (p k) \<Longrightarrow>
     attempts (callVision_loop p r a sl) = Suc k"
proof (induction "3 - a" arbitrary: a sl)
  case 0
  then show ?case by (simp add: loop_stop all_retries_exhausted_def)
next
  case (Suc n)
  then have a: "a < 3" by simp
  show ?case
  proof (cases "a = 2 \<or> \<not> retryable_failure (p a)")
    case True
    then show ?thesis using a Suc.prems by (simp add: loop_end)
  next
    case False
    then have eq: "callVision_loop p r a sl = callVision_loop p r (Suc a) (slept_before r a sl)"
      using a by (intro loop_continue) auto
    have "k \<noteq> a" using False Suc.prems(3) by auto
    then have "Suc a \<le> k" using Suc.prems(1) by simp
    moreover have "3 - Suc a = n" using Suc.hyps(2) by simp
    ultimately show ?thesis
      using Suc.hyps(1) [of "Suc a" "slept_before r a sl"] Suc.prems eq by simp
  qed
qed

text \<open>The delays slept: one before every attempt but the first.\<close>
lemma loop_delays:
  "a \<le> 3 \<Longrightarrow> delays (callVision_loop p r a sl) =
     sl @ map (\<lambda>k. getRetryDelay (r k) (k - 1))
            (filter (\<lambda>k. 0 < k) [a ..< attempts (callVision_loop p r a sl)])"
proof (induction "3 - a" arbitrary: a sl)
  case 0
  then show ?case by (simp add: loop_stop all_retries_exhausted_def)
next
  case (Suc n)
  then have a: "a < 3" by simp
  show ?case
  proof (cases "a = 2 \<or> \<not> retryable_failure (p a)")
    case True
    then show ?thesis using a by (simp add: loop_end slept_before_def)
  next
    case False
    then have eq: "callVision_loop p r a sl = callVision_loop p r (Suc a) (slept_before r a sl)"
      using a by (intro loop_continue) auto
    let ?N = "attempts (callVision_loop p r (Suc a) (slept_before r a sl))"
    have N: "Suc a < ?N" using False a by (intro loop_attempts_gt) auto
    have IH: "delays (callVision_loop p r (Suc a) (slept_before r a sl)) =
       slept_before r a sl @ map (\<lambda>k. getRetryDelay (r k) (k - 1)) (filter (\<lambda>k. 0 < k) [Suc a ..< ?N])"
      using Suc.hyps(2) a by (intro Suc.hyps(1)) auto
    have "[a ..< ?N] = a # [Suc a ..< ?N]" using N by (simp add: upt_conv_Cons)
    then show ?thesis using eq IH by (simp add: slept_before_def)
  qed
qed

section \<open>Properties of the vision analysis client\<close>


lemma callVision_wrong_count:
  "length us \<noteq> 3 \<Longrightarrow> callVision U p r us =
     \<lparr>outcome = Inl (VisionAnalysisError (WrongUrlCount (length us)) False), attempts = 0, delays = []\<rparr>"
  by (simp add: callVision_def)

lemma find_invalid_None: "\<forall>u\<in>set us. U u \<Longrightarrow> find (\<lambda>url. \<not> U url) us = None"
  by (induction us) auto

lemma callVision_valid_input:
  "length us = 3 \<Longrightarrow> \<forall>u\<in>set us. U u \<Longrightarrow> callVision U p r us = callVision_loop p r 0 []"
  by (simp add: callVision_def find_invalid_None)

lemma callVision_attempts_cases:
  "attempts (callVision U p r us) = 0 \<or> callVision U p r us = callVision_loop p r 0 []"
  by (simp add: callVision_def split: option.splits)

lemma loop_answer_at:
  assumes "a \<le> k" and "k < 3" and "\<forall>j. a \<le> j \<and> j < k \<longrightarrow> retryable_failure (p j)"
    and "k = 2 \<or> \<not> retryable_failure (p k)"
  shows "outcome (callVision_loop p r a sl) =
           (case attempt_body (p k) of
              Inr v \<Rightarrow> Inr v
            | Inl e \<Rightarrow> if nonretryable_vision_error e then Inl e
                       else if k = 2 then Inl (VisionAnalysisError AttemptsExhausted False)
                       else Inl e) \<and>
         attempts (callVision_loop p r a sl) = Suc k"
  using assms
proof (induction "k - a" arbitrary: a sl)
  case 0
  then have "a = k" by simp
  then show ?case using "0.prems" by (simp add: loop_end)
next
  case (Suc n)
  then have a: "a < k" by simp
  then have "retryable_failure (p a)" using Suc.prems by simp
  then have eq: "callVision_loop p r a sl = callVision_loop p r (Suc a) (slept_before r a sl)"
    using a Suc.prems(2) by (intro loop_continue) auto
  have "n = k - Suc a" using Suc.hyps(2) by simp
  then show ?case
    using Suc.hyps(1) [of "Suc a" "slept_before r a sl"] Suc.prems a eq by simp
qed

text \<open>
  C3.  Whatever the URLs and whatever the provider does, \<^verbatim>\<open>callVision\<close> sends at most
  3 requests.  A wrong number of URLs ends the call before any request; a reply that is not
  JSON, or that violates the schema, on the first attempt ends the call with that one
  request.  When all three attempts fail retryably the call ends with the error
  ``failed after 3 attempts'', which the orchestrator reports as the service being
  unavailable (code \<^verbatim>\<open>vision_api_failed\<close>).
\<close>

theorem C3_retry_bound:
  "attempts (callVision U p r us) \<le> 3 \<and>
   (length us \<noteq> 3 \<longrightarrow>
      attempts (callVision U p r us) = 0 \<and>
      outcome (callVision U p r us) = Inl (VisionAnalysisError (WrongUrlCount (length us)) False)) \<and>
   (length us = 3 \<and> (\<forall>u\<in>set us. U u) \<and> p 0 = Unparsable_content \<longrightarrow>
      attempts (callVision U p r us) = 1 \<and>
      outcome (callVision U p r us) = Inl (VisionAnalysisError NotValidJson False)) \<and>
   (length us = 3 \<and> (\<forall>u\<in>set us. U u) \<and> p 0 = Parsed_content j \<and> VisionAnalysisSchema j = None \<longrightarrow>
      attempts (callVision U p r us) = 1 \<and>
      outcome (callVision U p r us) = Inl (VisionAnalysisError SchemaMismatch False)) \<and>
   (length us = 3 \<and> (\<forall>u\<in>set us. U u) \<and> (\<forall>k<3. retryable_failure (p k)) \<longrightarrow>
      attempts (callVision U p r us) = 3 \<and>
      outcome (callVision U p r us) = Inl (VisionAnalysisError AttemptsExhausted False) \<and>
      rethrown (VisionAnalysisError AttemptsExhausted False) = AnalysisServiceError ''vision_api_failed'')"
proof (intro conjI impI)
  show "attempts (callVision U p r us) \<le> 3"
    using callVision_attempts_cases [of U p r us] loop_attempts_le [of 0 p r "[]"] by auto
next
  assume "length us \<noteq> 3"
  then show "attempts (callVision U p r us) = 0"
    and "outcome (callVision U p r us) = Inl (VisionAnalysisError (WrongUrlCount (length us)) False)"
    by (simp_all add: callVision_wrong_count)
next
  assume h: "length us = 3 \<and> (\<forall>u\<in>set us. U u) \<and> p 0 = Unparsable_content"
  then have eq: "callVision U p r us = callVision_loop p r 0 []"
    by (simp add: callVision_valid_input)
  have "\<not> retryable_failure (p 0)" using h by (simp add: retryable_failure_def)
  then show "attempts (callVision U p r us) = 1"
    and "outcome (callVision U p r us) = Inl (VisionAnalysisError NotValidJson False)"
    using h eq by (simp_all add: loop_end)
next
  assume h: "length us = 3 \<and> (\<forall>u\<in>set us. U u) \<and> p 0 = Parsed_content j \<and> VisionAnalysisSchema j = None"
  then have eq: "callVision U p r us = callVision_loop p r 0 []"
    by (simp add: callVision_valid_input)
  have "\<not> retryable_failure (p 0)" using h by (simp add: retryable_failure_def)
  then show "attempts (callVision U p r us) = 1"
    and "outcome (callVision U p r us) = Inl (VisionAnalysisError SchemaMismatch False)"
    using h eq by (simp_all add: loop_end)
next
  assume h: "length us = 3 \<and> (\<forall>u\<in>set us. U u) \<and> (\<forall>k<3. retryable_failure (p k))"
  then have eq: "callVision U p r us = callVision_loop p r 0 []"
    by (simp add: callVision_valid_input)
  have two: "retryable_failure (p 2)" using h by simp
  then obtain e where e: "attempt_body (p 2) = Inl e" "isRetryableError e"
    by (auto simp: retryable_failure_def split: sum.splits)
  have "outcome (callVision_loop p r 0 []) =
           (case attempt_body (p 2) of
              Inr v \<Rightarrow> Inr v
            | Inl e \<Rightarrow> if nonretryable_vision_error e then Inl e
                       else if (2::nat) = 2 then Inl (VisionAnalysisError AttemptsExhausted False)
                       else Inl e) \<and>
         attempts (callVision_loop p r 0 []) = Suc 2"
    using h by (intro loop_answer_at) auto
  then show "attempts (callVision U p r us) = 3"
    and "outcome (callVision U p r us) = Inl (VisionAnalysisError AttemptsExhausted False)"
    using eq e retryable_not_vision [OF e(2)] by simp_all
next
  show "rethrown (VisionAnalysisError AttemptsExhausted False) = AnalysisServiceError ''vision_api_failed''"
    by simp
qed


text \<open>
  C3 at concrete inputs: three URLs and a provider that always answers 503; a provider
  whose first reply is not JSON; one whose first reply is \<^verbatim>\<open>null\<close>; two URLs only.
\<close>

theorem C3_retry_bound_witness:
  "attempts (callVision (\<lambda>u. True) (\<lambda>k. Throws_APIError (Some 503)) (\<lambda>k. 0) [''a'', ''b'', ''c'']) = 3 \<and>
   outcome (callVision (\<lambda>u. True) (\<lambda>k. Throws_APIError (Some 503)) (\<lambda>k. 0) [''a'', ''b'', ''c''])
     = Inl (VisionAnalysisError AttemptsExhausted False) \<and>
   attempts (callVision (\<lambda>u. True) (\<lambda>k. Unparsable_content) (\<lambda>k. 0) [''a'', ''b'', ''c'']) = 1 \<and>
   attempts (callVision (\<lambda>u. True) (\<lambda>k. Parsed_content JNull) (\<lambda>k. 0) [''a'', ''b'', ''c'']) = 1 \<and>
   attempts (callVision (\<lambda>u. True) (\<lambda>k. Unparsable_content) (\<lambda>k. 0) [''a'', ''b'']) = 0"
proof -
  let ?U = "\<lambda>u::string. True" and ?r = "\<lambda>k::nat. 0::real"
  let ?us = "[''a'', ''b'', ''c'']"
  let ?busy = "\<lambda>k::nat. Throws_APIError (Some 503)"
  have exhausted:
    "attempts (callVision ?U ?busy ?r ?us) = 3 \<and>
     outcome (callVision ?U ?busy ?r ?us) = Inl (VisionAnalysisError AttemptsExhausted False) \<and>
     rethrown (VisionAnalysisError AttemptsExhausted False) = AnalysisServiceError ''vision_api_failed''"
    by (rule C3_retry_bound [of ?U ?busy ?r ?us JNull, THEN conjunct2, THEN conjunct2,
          THEN conjunct2, THEN conjunct2, THEN mp])
       (simp add: retryable_failure_def)
  have malformed:
    "attempts (callVision ?U (\<lambda>k. Unparsable_content) ?r ?us) = 1 \<and>
     outcome (callVision ?U (\<lambda>k. Unparsable_content) ?r ?us) = Inl (VisionAnalysisError NotValidJson False)"
    by (rule C3_retry_bound [of ?U "\<lambda>k. Unparsable_content" ?r ?us JNull, THEN conjunct2,
          THEN conjunct2, THEN conjunct1, THEN mp])
       simp
  have schema:
    "attempts (callVision ?U (\<lambda>k. Parsed_content JNull) ?r ?us) = 1 \<and>
     outcome (callVision ?U (\<lambda>k. Parsed_content JNull) ?r ?us) = Inl (VisionAnalysisError SchemaMismatch False)"
    by (rule C3_retry_bound [of ?U "\<lambda>k. Parsed_content JNull" ?r ?us JNull, THEN conjunct2,
          THEN conjunct2, THEN conjunct2, THEN conjunct1, THEN mp])
       simp
  have count:
    "attempts (callVision ?U (\<lambda>k. Unparsable_content) ?r [''a'', ''b'']) = 0 \<and>
     outcome (callVision ?U (\<lambda>k. Unparsable_content) ?r [''a'', ''b''])
       = Inl (VisionAnalysisError (WrongUrlCount (length [''a'', ''b''])) False)"
    by (rule C3_retry_bound [of ?U "\<lambda>k. Unparsable_content" ?r "[''a'', ''b'']" JNull,
          THEN conjunct2, THEN conjunct1, THEN mp])
       simp
  show ?thesis
    using exhausted malformed schema count by simp
qed

text \<open>
  C9.  Attempt \<open>k + 1\<close> takes place only if attempt \<open>k\<close> threw an
  \<^verbatim>\<open>APIError\<close> with status 429 or in [500, 600); an attempt that ends in any other way
  is the last one.  An empty reply is thrown with the retryable flag set, but
  \<^verbatim>\<open>isRetryableError\<close> is false for it, so it is never retried.
\<close>

theorem C9_retry_only_after_retryable_api_error:
  "(Suc k < attempts (callVision U p r us) \<longrightarrow>
      (\<exists>s. p k = Throws_APIError (Some s) \<and> (s = 429 \<or> (500 \<le> s \<and> s < 600)))) \<and>
   (k < attempts (callVision U p r us) \<and>
    (\<nexists>s. p k = Throws_APIError (Some s) \<and> (s = 429 \<or> (500 \<le> s \<and> s < 600))) \<longrightarrow>
      attempts (callVision U p r us) = Suc k) \<and>
   (k < attempts (callVision U p r us) \<and> p k = No_content \<longrightarrow>
      attempts (callVision U p r us) = Suc k) \<and>
   attempt_body No_content = Inl (VisionAnalysisError EmptyResponse True) \<and>
   isRetryableError (VisionAnalysisError EmptyResponse True) = False"
proof (intro conjI impI)
  assume h: "Suc k < attempts (callVision U p r us)"
  then have "callVision U p r us = callVision_loop p r 0 []"
    using callVision_attempts_cases [of U p r us] by auto
  then have "retryable_failure (p k)"
    using h loop_next_attempt [of 0 k p r "[]"] by simp
  then show "\<exists>s. p k = Throws_APIError (Some s) \<and> (s = 429 \<or> (500 \<le> s \<and> s < 600))"
    by (simp add: retryable_failure_iff)
next
  assume h: "k < attempts (callVision U p r us) \<and>
    (\<nexists>s. p k = Throws_APIError (Some s) \<and> (s = 429 \<or> (500 \<le> s \<and> s < 600)))"
  then have eq: "callVision U p r us = callVision_loop p r 0 []"
    using callVision_attempts_cases [of U p r us] by auto
  have "\<not> retryable_failure (p k)"
    using h by (simp add: retryable_failure_iff)
  then show "attempts (callVision U p r us) = Suc k"
    using h eq loop_last_attempt [of 0 k p r "[]"] by simp
next
  assume h: "k < attempts (callVision U p r us) \<and> p k = No_content"
  then have eq: "callVision U p r us = callVision_loop p r 0 []"
    using callVision_attempts_cases [of U p r us] by auto
  have "\<not> retryable_failure (p k)"
    using h by (simp add: retryable_failure_iff)
  then show "attempts (callVision U p r us) = Suc k"
    using h eq loop_last_attempt [of 0 k p r "[]"] by simp
qed simp_all

text \<open>
  C9 at a concrete input: a 503 on the first attempt, empty replies afterwards.  The call
  makes exactly two attempts.
\<close>

theorem C9_retry_only_after_retryable_api_error_witness:
  "attempts (callVision (\<lambda>u. True)
              (\<lambda>k. if k = 0 then Throws_APIError (Some 503) else No_content) (\<lambda>k. 0)
              [''a'', ''b'', ''c'']) = 2"
proof -
  let ?p = "\<lambda>k::nat. if k = 0 then Throws_APIError (Some 503) else No_content"
  let ?call = "callVision (\<lambda>u. True) ?p (\<lambda>k. 0) [''a'', ''b'', ''c'']"
  have run: "callVision_loop ?p (\<lambda>k. 0) 0 [] = callVision_loop ?p (\<lambda>k. 0) 1 []"
    using loop_continue [of 0 ?p "\<lambda>k. 0" "[]"]
    by (simp add: retryable_failure_def slept_before_def)
  have "1 < attempts ?call"
    using loop_attempts_gt [of 1 ?p "\<lambda>k. 0" "[]"] run by (simp add: callVision_def)
  then show ?thesis
    using C9_retry_only_after_retryable_api_error [of 1 "\<lambda>u. True" ?p "\<lambda>k. 0" "[''a'', ''b'', ''c'']"]
    by simp
qed

section \<open>Rounding to doubles\<close>

lemma emin_le_emax: "emin \<le> emax"
  by (simp add: emin_def emax_def)

text \<open>The exponent of a number.\<close>

lemma binade_set_finite: "finite {e \<in> {emin .. emax}. 2 powi e \<le> \<bar>x::real\<bar>}"
  by (rule finite_subset [of _ "{emin .. emax}"]) auto

lemma binade_le:
  assumes "emin \<le> n" and "\<bar>x\<bar> < 2 powi (n + 1)"
  shows "binade x \<le> n"
proof (cases "2 powi emin \<le> \<bar>x\<bar>")
  case False
  then show ?thesis using assms(1) by (simp add: binade_def)
next
  case True
  let ?A = "{e \<in> {emin .. emax}. 2 powi e \<le> \<bar>x\<bar>}"
  have ne: "?A \<noteq> {}" using True emin_le_emax by auto
  have "e \<le> n" if "e \<in> ?A" for e
  proof -
    have "(2::real) powi e < 2 powi (n + 1)" using that assms(2) by simp
    then have "e < n + 1" using power_int_increasing [of "n + 1" e "2::real"] by (cases "e < n + 1") auto
    then show ?thesis by simp
  qed
  then have "Max ?A \<le> n" using ne binade_set_finite [of x] by (subst Max_le_iff) blast+
  then show ?thesis using True by (simp add: binade_def)
qed

lemma binade_ge:
  assumes "emin \<le> n" and "n \<le> emax" and "2 powi n \<le> \<bar>x\<bar>"
  shows "n \<le> binade x"
proof -
  let ?A = "{e \<in> {emin .. emax}. 2 powi e \<le> \<bar>x\<bar>}"
  have "(2::real) powi emin \<le> 2 powi n"
    using assms(1) by (intro power_int_increasing) auto
  then have big: "2 powi emin \<le> \<bar>x\<bar>" using assms(3) by simp
  have "n \<in> ?A" using assms by simp
  then have "n \<le> Max ?A" using binade_set_finite [of x] by (intro Max_ge)
  then show ?thesis using big by (simp add: binade_def)
qed

lemma binade_lower: "emin \<le> binade x"
proof (cases "2 powi emin \<le> \<bar>x\<bar>")
  case False
  then show ?thesis by (simp add: binade_def)
next
  case True
  then show ?thesis using binade_ge [of emin x] emin_le_emax by simp
qed

lemma binade_eqI:
  assumes "emin \<le> n" and "n \<le> emax" and "2 powi n \<le> \<bar>x\<bar>" and "\<bar>x\<bar> < 2 powi (n + 1)"
  shows "binade x = n"
  using binade_le [OF assms(1,4)] binade_ge [OF assms(1,2,3)] by simp

lemma binade_mono:
  assumes "\<bar>x\<bar> \<le> \<bar>y\<bar>"
  shows "binade x \<le> binade y"
proof (cases "2 powi emin \<le> \<bar>x\<bar>")
  case False
  then show ?thesis using binade_lower [of y] by (simp add: binade_def)
next
  case True
  let ?A = "{e \<in> {emin .. emax}. 2 powi e \<le> \<bar>x\<bar>}"
  have ne: "?A \<noteq> {}" using True emin_le_emax by auto
  have "e \<le> binade y" if "e \<in> ?A" for e
    using that assms by (intro binade_ge) auto
  then have "Max ?A \<le> binade y" using ne binade_set_finite [of x] by (subst Max_le_iff) blast+
  then show ?thesis using True by (simp add: binade_def)
qed

lemma quantum_pos: "0 < quantum x"
  by (simp add: quantum_def)

lemma round_even_of_int: "round_even (of_int k) = k"
  by (simp add: round_even_def)

lemma round_even_ge: "of_int m \<le> y \<Longrightarrow> m \<le> round_even y"
proof -
  assume "of_int m \<le> y"
  then have "m \<le> \<lfloor>y\<rfloor>" by (simp add: le_floor_iff)
  then show ?thesis by (simp add: round_even_def Let_def)
qed

lemma round_even_le: "y \<le> of_int n \<Longrightarrow> round_even y \<le> n"
proof -
  assume y: "y \<le> of_int n"
  then have f: "\<lfloor>y\<rfloor> \<le> n" by (simp add: floor_le_iff) 
  show ?thesis
  proof (cases "\<lfloor>y\<rfloor> = n")
    case True
    then have "y = of_int \<lfloor>y\<rfloor>" using y of_int_floor_le [of y] by simp
    then have "round_even y = \<lfloor>y\<rfloor>" using round_even_of_int [of "\<lfloor>y\<rfloor>"] by simp
    then show ?thesis using True by simp
  next
    case False
    then have "\<lfloor>y\<rfloor> + 1 \<le> n" using f by simp
    then show ?thesis by (simp add: round_even_def Let_def)
  qed
qed

lemma on_grid_0: "on_grid z 0"
  by (auto simp: on_grid_def intro: exI [of _ 0])

lemma on_grid_finer:
  assumes "z \<le> z'" and "on_grid z' y"
  shows "on_grid z y"
proof -
  obtain m :: int where m: "y = of_int m * 2 powi z'"
    using assms(2) by (auto simp: on_grid_def)
  have "(2::real) powi z' = 2 powi (z' - z) * 2 powi z"
    by (simp flip: power_int_add)
  also have "(2::real) powi (z' - z) = of_int (2 ^ nat (z' - z))"
    using assms(1) by (simp add: power_int_def)
  finally have "y = of_int (m * 2 ^ nat (z' - z)) * 2 powi z"
    using m by simp
  then show ?thesis unfolding on_grid_def by blast
qed

lemma on_grid_int: "on_grid 0 (of_int m)"
  by (auto simp: on_grid_def)

text \<open>Rounding does not cross a number on the grid of the rounded value.\<close>

lemma fl_between:
  assumes "a \<le> x" and "x \<le> b" and "on_grid (binade x - 52) a" and "on_grid (binade x - 52) b"
  shows "a \<le> fl x \<and> fl x \<le> b"
proof -
  let ?q = "quantum x"
  have q: "0 < ?q" by (rule quantum_pos)
  obtain m n :: int where m: "a = of_int m * ?q" and n: "b = of_int n * ?q"
    using assms(3,4) by (auto simp: on_grid_def quantum_def)
  have "of_int m \<le> x / ?q" using assms(1) m q by (simp add: pos_le_divide_eq)
  then have lo: "m \<le> round_even (x / ?q)" by (rule round_even_ge)
  have "x / ?q \<le> of_int n" using assms(2) n q by (simp add: pos_divide_le_eq)
  then have hi: "round_even (x / ?q) \<le> n" by (rule round_even_le)
  have "of_int m * ?q \<le> of_int (round_even (x / ?q)) * ?q"
    using lo q by simp
  moreover have "of_int (round_even (x / ?q)) * ?q \<le> of_int n * ?q"
    using hi q by simp
  ultimately show ?thesis using m n by (simp add: fl_def)
qed

lemma fl_in_interval:
  assumes "0 \<le> a" and "a \<le> x" and "x \<le> b" and "on_grid Z a" and "on_grid Z b"
    and "emin \<le> N" and "b < 2 powi (N + 1)" and "N - 52 \<le> Z"
  shows "a \<le> fl x \<and> fl x \<le> b"
proof -
  have "\<bar>x\<bar> < 2 powi (N + 1)" using assms by simp
  then have "binade x \<le> N" using assms(6) by (intro binade_le) 
  then have z: "binade x - 52 \<le> Z" using assms(8) by simp
  show ?thesis
    using assms(2,3) on_grid_finer [OF z assms(4)] on_grid_finer [OF z assms(5)]
    by (rule fl_between)
qed

lemma fl_of_int:
  assumes "\<bar>m\<bar> < 2 ^ 53"
  shows "fl (of_int m) = of_int m"
proof -
  have "\<bar>of_int m :: real\<bar> < 2 powi (52 + 1)"
    using assms by (simp flip: of_int_abs add: of_int_less_numeral_power_cancel_iff)
  then have "binade (of_int m) \<le> 52" by (intro binade_le) (auto simp: emin_def)
  then have "on_grid (binade (of_int m) - 52) (of_int m)"
    using on_grid_finer [OF _ on_grid_int, of "binade (of_int m) - 52" m] by simp
  then have "of_int m \<le> fl (of_int m) \<and> fl (of_int m) \<le> of_int m"
    by (intro fl_between) auto
  then show ?thesis by simp
qed

section \<open>The backoff delays\<close>

text \<open>The double nearest to a number whose binade is known.\<close>

lemma fl_eval:
  assumes "emin \<le> n" and "n \<le> emax" and "2 powi n \<le> \<bar>x\<bar>" and "\<bar>x\<bar> < 2 powi (n + 1)"
  shows "fl x = of_int (round_even (x / 2 powi (n - 52))) * 2 powi (n - 52)"
  using binade_eqI [OF assms] by (simp add: fl_def quantum_def)

text \<open>The literal \<^verbatim>\<open>0.3\<close>.\<close>

lemma double_three_tenths: "fl (3 / 10) = 5404319552844595 / 2 ^ 54"
  by (subst fl_eval [of "- 2"]) (simp_all add: emin_def emax_def round_even_def power_int_minus)

lemma three_tenths_on_grid: "on_grid (- 54) (fl (3 / 10))"
  unfolding double_three_tenths on_grid_def
  by (rule exI [of _ 5404319552844595]) (simp add: power_int_minus)

text \<open>
  The three roundings of \<^verbatim>\<open>getRetryDelay\<close> for a random number in [0, 1): the
  exponential delay is exact, and the sum stays between it and 1.3 times it.
\<close>

lemma delay_steps:
  assumes "0 \<le> rnd" and "rnd < 1" and "n \<le> 42"
  shows "fl (1000 * 2 ^ n) = 1000 * 2 ^ n"
    and "1000 * 2 ^ n \<le> fl (1000 * 2 ^ n + fl (fl (rnd * fl (3 / 10)) * (1000 * 2 ^ n)))"
    and "fl (1000 * 2 ^ n + fl (fl (rnd * fl (3 / 10)) * (1000 * 2 ^ n))) \<le> 1300 * 2 ^ n"
proof -
  let ?c = "fl (3 / 10) :: real"
  let ?E = "1000 * 2 ^ n :: real"
  have p: "(2::real) ^ n \<le> 2 ^ 42"
    using assms(3) by (intro power_increasing) auto
  have "\<bar>1000 * 2 ^ n :: int\<bar> < 2 ^ 53"
  proof -
    have "(2::int) ^ n \<le> 2 ^ 42" using assms(3) by (intro power_increasing) auto
    then show ?thesis by simp
  qed
  then have "fl (of_int (1000 * 2 ^ n)) = of_int (1000 * 2 ^ n)"
    by (rule fl_of_int)
  then show E: "fl ?E = ?E" by simp
  have c: "0 \<le> ?c" "?c \<le> 3 / 10" "?c < 2 powi (- 2 + 1)"
    by (simp_all add: double_three_tenths power_int_minus)
  have "0 \<le> rnd * ?c" "rnd * ?c \<le> ?c"
    using assms(1,2) c(1) by (simp_all add: mult_left_le_one_le)
  then have t1: "0 \<le> fl (rnd * ?c) \<and> fl (rnd * ?c) \<le> ?c"
    using three_tenths_on_grid c(3)
    by (intro fl_in_interval [where Z = "- 54" and N = "- 2"]) (simp_all add: on_grid_0 emin_def)
  let ?t1 = "fl (rnd * ?c)"
  have J: "on_grid 0 (300 * 2 ^ n)" "on_grid 0 (1300 * 2 ^ n)" "on_grid 0 ?E"
    using on_grid_int [of "300 * 2 ^ n"] on_grid_int [of "1300 * 2 ^ n"]
      on_grid_int [of "1000 * 2 ^ n"] by simp_all
  have small: "(1300 * 2 ^ n :: real) < 2 powi (52 + 1)" "(300 * 2 ^ n :: real) < 2 powi (52 + 1)"
    using p by simp_all
  have "?t1 * ?E \<le> (3 / 10) * ?E"
    using t1 c(2) by (intro mult_right_mono) auto
  then have "0 \<le> ?t1 * ?E" "?t1 * ?E \<le> 300 * 2 ^ n"
    using t1 by simp_all
  then have t2: "0 \<le> fl (?t1 * ?E) \<and> fl (?t1 * ?E) \<le> 300 * 2 ^ n"
    using J(1) small(2)
    by (intro fl_in_interval [where Z = 0 and N = 52]) (simp_all add: on_grid_0 emin_def)
  let ?t2 = "fl (?t1 * ?E)"
  have "?E \<le> ?E + ?t2" "?E + ?t2 \<le> 1300 * 2 ^ n"
    using t2 by simp_all
  then have "?E \<le> fl (?E + ?t2) \<and> fl (?E + ?t2) \<le> 1300 * 2 ^ n"
    using J(2,3) small(1)
    by (intro fl_in_interval [where Z = 0 and N = 52]) (simp_all add: emin_def)
  then show "?E \<le> fl (?E + ?t2)" "fl (?E + ?t2) \<le> 1300 * 2 ^ n"
    by simp_all
qed

lemma getRetryDelay_bounds:
  assumes "0 \<le> rnd" and "rnd < 1" and "n \<le> 42"
  shows "\<exists>jitter. 0 \<le> jitter \<and> jitter \<le> 0.3 \<and>
           getRetryDelay rnd n = min 10000 (1000 * 2 ^ n * (1 + jitter))"
proof -
  let ?E = "1000 * 2 ^ n :: real"
  let ?d = "fl (?E + fl (fl (rnd * fl (3 / 10)) * ?E))"
  note s = delay_steps [OF assms]
  have d: "getRetryDelay rnd n = min ?d 10000"
    by (simp add: getRetryDelay_def RETRY_CONFIG_def Let_def s(1))
  let ?j = "?d / ?E - 1"
  have E: "0 < ?E" by simp
  have "0 \<le> ?j" using s(2) E by (simp add: pos_le_divide_eq)
  moreover have "?j \<le> 0.3"
  proof -
    have "?d / ?E \<le> (1300 * 2 ^ n) / ?E" using s(3) E by (intro divide_right_mono) auto
    then show ?thesis by simp
  qed
  moreover have "?E * (1 + ?j) = ?d" using E by (simp add: field_simps)
  ultimately have "0 \<le> ?j \<and> ?j \<le> 0.3 \<and> getRetryDelay rnd n = min 10000 (?E * (1 + ?j))"
    using d by (simp add: min.commute)
  then show ?thesis by (rule exI)
qed

text \<open>For the random number \<open>1 - 1 / 2 ^ 52\<close> the first delay is exactly 1300 ms.\<close>

lemma delay_at_edge: "getRetryDelay (1 - 1 / 2 ^ 52) 0 = 1300"
proof -
  have e: "fl 1000 = 1000"
    using fl_of_int [of 1000] by simp
  have t1: "fl ((1 - 1 / 2 ^ 52) * fl (3 / 10)) = 5404319552844594 / 2 ^ 54"
    unfolding double_three_tenths
    by (subst fl_eval [of "- 2"]) (simp_all add: emin_def emax_def round_even_def power_int_minus)
  have t2: "fl (5404319552844594 / 2 ^ 54 * 1000) = 5277655813324799 / 2 ^ 44"
    by (subst fl_eval [of 8]) (simp_all add: emin_def emax_def round_even_def power_int_minus)
  have t3: "fl (1000 + 5277655813324799 / 2 ^ 44) = 1300"
    by (subst fl_eval [of 10]) (simp_all add: emin_def emax_def round_even_def power_int_minus)
  have "getRetryDelay (1 - 1 / 2 ^ 52) 0 =
          min (fl (fl 1000 + fl (fl ((1 - 1 / 2 ^ 52) * fl (3 / 10)) * fl 1000))) 10000"
    unfolding getRetryDelay_def RETRY_CONFIG_def Let_def by simp
  also have "\<dots> = min (fl (1000 + fl (fl ((1 - 1 / 2 ^ 52) * fl (3 / 10)) * 1000))) 10000"
    by (simp only: e)
  also have "\<dots> = min (fl (1000 + fl (5404319552844594 / 2 ^ 54 * 1000))) 10000"
    by (simp only: t1)
  also have "\<dots> = min (fl (1000 + 5277655813324799 / 2 ^ 44)) 10000"
    by (simp only: t2)
  also have "\<dots> = min 1300 10000"
    by (simp only: t3)
  finally show ?thesis
    by simp
qed

lemma callVision_cases:
  "callVision U p r us = callVision_loop p r 0 [] \<or>
   (attempts (callVision U p r us) = 0 \<and> delays (callVision U p r us) = [])"
  by (simp add: callVision_def split: option.splits)

text \<open>A call sleeps once before every attempt but the first.\<close>

lemma callVision_delays:
  "delays (callVision U p r us) =
     map (\<lambda>k. getRetryDelay (r k) (k - 1)) [1 ..< attempts (callVision U p r us)]"
proof (cases "callVision U p r us = callVision_loop p r 0 []")
  case False
  then show ?thesis using callVision_cases [of U p r us] by simp
next
  case True
  let ?N = "attempts (callVision_loop p r 0 [])"
  have "0 < ?N" by (intro loop_attempts_gt) simp
  then have "[0 ..< ?N] = 0 # [1 ..< ?N]" by (simp add: upt_conv_Cons)
  moreover have "filter (\<lambda>k. 0 < k) [1 ..< ?N] = [1 ..< ?N]"
    by (intro filter_True) auto
  ultimately have "filter (\<lambda>k. 0 < k) [0 ..< ?N] = [1 ..< ?N]" by simp
  then show ?thesis
    using True loop_delays [of 0 p r "[]"] by simp
qed

text \<open>
  C5 as stated (jitter in the half-open interval [0, 0.3)) fails on the code: for the
  random number \<open>1 - 1 / 2 ^ 52\<close> the products are rounded up and the delay before the
  first retry is exactly 1300 ms, which is \<open>1000 * 2 ^ 0 * (1 + jitter)\<close> for
  \<open>jitter = 0.3\<close> only.
\<close>

theorem C5_jitter_reaches_three_tenths:
  "getRetryDelay (1 - 1 / 2 ^ 52) 0 = 1300 \<and>
   \<not> (\<exists>jitter. 0 \<le> jitter \<and> jitter < 0.3 \<and>
          getRetryDelay (1 - 1 / 2 ^ 52) 0 = min 10000 (1000 * 2 ^ 0 * (1 + jitter)))"
proof
  show "getRetryDelay (1 - 1 / 2 ^ 52) 0 = 1300"
    by (rule delay_at_edge)
  show "\<not> (\<exists>jitter. 0 \<le> jitter \<and> jitter < 0.3 \<and>
          getRetryDelay (1 - 1 / 2 ^ 52) 0 = min 10000 (1000 * 2 ^ 0 * (1 + jitter)))"
  proof
    assume "\<exists>jitter. 0 \<le> jitter \<and> jitter < 0.3 \<and>
          getRetryDelay (1 - 1 / 2 ^ 52) 0 = min 10000 (1000 * 2 ^ 0 * (1 + jitter))"
    then obtain jitter :: real where j: "0 \<le> jitter" "jitter < 0.3"
      and d: "getRetryDelay (1 - 1 / 2 ^ 52) 0 = min 10000 (1000 * 2 ^ 0 * (1 + jitter))"
      by blast
    have "min 10000 (1000 * 2 ^ 0 * (1 + jitter)) < 1300"
      using j by simp
    then show False
      using d delay_at_edge by simp
  qed
qed

text \<open>
  C5, amended: the jitter lies in the closed interval [0, 0.3].  With doubles as the
  program computes them and every value of \<^verbatim>\<open>Math.random()\<close> in [0, 1): for every
  retry attempt \<open>k \<ge> 1\<close> that a call makes, the delay slept before it is
  \<^verbatim>\<open>getRetryDelay(k - 1)\<close>, and that is
  \<open>min 10000 (1000 * 2 ^ (k - 1) * (1 + jitter))\<close> for a jitter in [0, 0.3].
\<close>

theorem C5_backoff_delay:
  assumes "\<forall>i. 0 \<le> r i \<and> r i < 1" and "1 \<le> k" and "k < attempts (callVision U p r us)"
  shows "length (delays (callVision U p r us)) = attempts (callVision U p r us) - 1 \<and>
         (\<exists>jitter. 0 \<le> jitter \<and> jitter \<le> 0.3 \<and>
            delays (callVision U p r us) ! (k - 1) = getRetryDelay (r k) (k - 1) \<and>
            getRetryDelay (r k) (k - 1) = min 10000 (1000 * 2 ^ (k - 1) * (1 + jitter)))"
proof -
  let ?N = "attempts (callVision U p r us)"
  have d: "delays (callVision U p r us) = map (\<lambda>k. getRetryDelay (r k) (k - 1)) [1 ..< ?N]"
    by (rule callVision_delays)
  have len: "length (delays (callVision U p r us)) = ?N - 1"
    by (subst d) simp
  have "k - 1 < length [1 ..< ?N]"
    using assms by simp
  then have "map (\<lambda>k. getRetryDelay (r k) (k - 1)) [1 ..< ?N] ! (k - 1) = getRetryDelay (r k) (k - 1)"
    using assms(2) by simp
  then have nth: "delays (callVision U p r us) ! (k - 1) = getRetryDelay (r k) (k - 1)"
    using d by simp
  have "?N \<le> 3"
    using callVision_attempts_cases [of U p r us] loop_attempts_le [of 0 p r "[]"] by auto
  then have small: "k - 1 \<le> 42"
    using assms(3) by simp
  have range: "0 \<le> r k" "r k < 1"
    using assms(1) by simp_all
  obtain jitter where "0 \<le> jitter" "jitter \<le> 0.3"
    "getRetryDelay (r k) (k - 1) = min 10000 (1000 * 2 ^ (k - 1) * (1 + jitter))"
    using getRetryDelay_bounds [OF range small] by blast
  then have "0 \<le> jitter \<and> jitter \<le> 0.3 \<and>
        delays (callVision U p r us) ! (k - 1) = getRetryDelay (r k) (k - 1) \<and>
        getRetryDelay (r k) (k - 1) = min 10000 (1000 * 2 ^ (k - 1) * (1 + jitter))"
    using nth by simp
  then have "\<exists>jitter. 0 \<le> jitter \<and> jitter \<le> 0.3 \<and>
            delays (callVision U p r us) ! (k - 1) = getRetryDelay (r k) (k - 1) \<and>
            getRetryDelay (r k) (k - 1) = min 10000 (1000 * 2 ^ (k - 1) * (1 + jitter))"
    by (rule exI)
  then show ?thesis
    using len by simp
qed

text \<open>
  C5 (amended) at a concrete input: the provider answers 429 every time and every random
  number is \<open>1 - 1 / 2 ^ 52\<close>; the delay before the second attempt (\<open>k = 1\<close>), which is
  1300 ms.
\<close>

theorem C5_backoff_delay_witness:
  "length (delays (callVision (\<lambda>u. True) (\<lambda>k. Throws_APIError (Some 429)) (\<lambda>k. 1 - 1 / 2 ^ 52)
               [''a'', ''b'', ''c''])) = 2 \<and>
   delays (callVision (\<lambda>u. True) (\<lambda>k. Throws_APIError (Some 429)) (\<lambda>k. 1 - 1 / 2 ^ 52)
             [''a'', ''b'', ''c'']) ! (1 - 1) = 1300 \<and>
   (\<exists>jitter. 0 \<le> jitter \<and> jitter \<le> 0.3 \<and>
      getRetryDelay (1 - 1 / 2 ^ 52) (1 - 1) = min 10000 (1000 * 2 ^ (1 - 1) * (1 + jitter)))"
proof -
  let ?p = "\<lambda>k::nat. Throws_APIError (Some 429)"
  let ?r = "\<lambda>k::nat. 1 - 1 / (2::real) ^ 52"
  let ?us = "[''a'', ''b'', ''c'']"
  have "outcome (callVision_loop ?p ?r 0 []) =
           (case attempt_body (?p 2) of
              Inr v \<Rightarrow> Inr v
            | Inl e \<Rightarrow> if nonretryable_vision_error e then Inl e
                       else if (2::nat) = 2 then Inl (VisionAnalysisError AttemptsExhausted False)
                       else Inl e) \<and>
         attempts (callVision_loop ?p ?r 0 []) = Suc 2"
    by (intro loop_answer_at) (auto simp: retryable_failure_def)
  then have three: "attempts (callVision (\<lambda>u. True) ?p ?r ?us) = 3"
    by (simp add: callVision_def)
  have range: "\<forall>i. 0 \<le> ?r i \<and> ?r i < 1"
    by simp
  have k: "(1::nat) \<le> 1" "1 < attempts (callVision (\<lambda>u. True) ?p ?r ?us)"
    using three by simp_all
  note c5 = C5_backoff_delay [OF range k]
  have len: "length (delays (callVision (\<lambda>u. True) ?p ?r ?us)) = 2"
    using c5 [THEN conjunct1] three by simp
  obtain jitter where j: "0 \<le> jitter" "jitter \<le> 0.3"
    and nth: "delays (callVision (\<lambda>u. True) ?p ?r ?us) ! (1 - 1) = getRetryDelay (?r 1) (1 - 1)"
    and f: "getRetryDelay (?r 1) (1 - 1) = min 10000 (1000 * 2 ^ (1 - 1) * (1 + jitter))"
    using c5 [THEN conjunct2] by blast
  have v: "delays (callVision (\<lambda>u. True) ?p ?r ?us) ! (1 - 1) = 1300"
    using nth delay_at_edge by simp
  have "\<exists>jitter. 0 \<le> jitter \<and> jitter \<le> 0.3 \<and>
      getRetryDelay (1 - 1 / 2 ^ 52) (1 - 1) = min 10000 (1000 * 2 ^ (1 - 1) * (1 + jitter))"
    using j f by blast
  then show ?thesis
    using len v by (intro conjI)
qed

section \<open>Properties of the summary mapper\<close>


lemma find_no_match: "(\<forall>u\<in>set ts. \<not> P u) \<Longrightarrow> find P ts = None"
  by (induction ts) auto

lemma find_first_match: "\<forall>u\<in>set pre. \<not> P u \<Longrightarrow> P m \<Longrightarrow> find P (pre @ m # post) = Some m"
  by (induction pre) auto

lemma severityMap_values: "severityMap s \<in> {25, 55, 85}"
  by (cases s) auto

lemma getTraitSeverity_absent:
  "\<forall>u\<in>set ts. trait_id u \<noteq> c \<Longrightarrow> getTraitSeverity ts c = 0"
  by (simp add: getTraitSeverity_def find_no_match)

lemma getTraitSeverity_first:
  "\<forall>u\<in>set pre. trait_id u \<noteq> c \<Longrightarrow> trait_id m = c \<Longrightarrow>
     getTraitSeverity (pre @ m # post) c = (case severity m of Low \<Rightarrow> 25 | Moderate \<Rightarrow> 55 | High \<Rightarrow> 85)"
  by (simp add: getTraitSeverity_def find_first_match split: Severity.splits)

lemma getTraitSeverity_values: "getTraitSeverity ts c \<in> {0, 25, 55, 85}"
  using severityMap_values by (auto simp: getTraitSeverity_def split: option.splits)

text \<open>
  C6.  The single point of the series holds, for the channels acne, dryness and
  pigmentation, the score of the trait ids \<^verbatim>\<open>acne\<close>, \<^verbatim>\<open>dryness\<close> and
  \<^verbatim>\<open>hyperpigmentation\<close>.  The score of an id is 0 when no trait has that id; otherwise it
  is 25, 55 or 85 as the severity of the first trait with that id is low, moderate or high.
  No other value occurs.
\<close>

theorem C6_channel_scores:
  "series (mapVisionToSummary uid v t) =
     [\<lparr>date = t,
       acne = getTraitSeverity (traits v) ''acne'',
       dryness = getTraitSeverity (traits v) ''dryness'',
       pigmentation = getTraitSeverity (traits v) ''hyperpigmentation''\<rparr>] \<and>
   ((\<forall>u\<in>set (traits v). trait_id u \<noteq> c) \<longrightarrow> getTraitSeverity (traits v) c = 0) \<and>
   (traits v = pre @ m # post \<and> (\<forall>u\<in>set pre. trait_id u \<noteq> c) \<and> trait_id m = c \<longrightarrow>
      getTraitSeverity (traits v) c
        = (case severity m of Low \<Rightarrow> 25 | Moderate \<Rightarrow> 55 | High \<Rightarrow> 85)) \<and>
   getTraitSeverity (traits v) c \<in> {0, 25, 55, 85}"
  using getTraitSeverity_absent [of "traits v" c] getTraitSeverity_first [of pre c m post]
    getTraitSeverity_values [of "traits v" c]
  by (simp add: mapVisionToSummary_def)

text \<open>C6 on the traits of the specification's scenario B.\<close>

theorem C6_channel_scores_witness:
  "series (mapVisionToSummary ''owner'' scenario_B 20)
     = [\<lparr>date = 20, acne = 85, dryness = 55, pigmentation = 25\<rparr>] \<and>
   getTraitSeverity (traits scenario_B) ''oiliness'' = 0"
proof -
  let ?a = "\<lparr>trait_id = ''acne'', trait_name = ''Acne'', severity = High, description = ''a''\<rparr>"
  let ?d = "\<lparr>trait_id = ''dryness'', trait_name = ''Dryness'', severity = Moderate, description = ''b''\<rparr>"
  let ?h = "\<lparr>trait_id = ''hyperpigmentation'', trait_name = ''Spots'', severity = Low, description = ''c''\<rparr>"
  have a: "getTraitSeverity (traits scenario_B) ''acne'' = 85"
    using C6_channel_scores [of "''owner''" scenario_B 20 "''acne''" "[]" ?a "[?d, ?h]"]
    by (simp add: scenario_B_def)
  have d: "getTraitSeverity (traits scenario_B) ''dryness'' = 55"
    using C6_channel_scores [of "''owner''" scenario_B 20 "''dryness''" "[?a]" ?d "[?h]"]
    by (simp add: scenario_B_def)
  have h: "getTraitSeverity (traits scenario_B) ''hyperpigmentation'' = 25"
    using C6_channel_scores [of "''owner''" scenario_B 20 "''hyperpigmentation''" "[?a, ?d]" ?h "[]"]
    by (simp add: scenario_B_def)
  have o: "getTraitSeverity (traits scenario_B) ''oiliness'' = 0"
    using C6_channel_scores [of "''owner''" scenario_B 20 "''oiliness''" "[]" ?a "[]"]
    by (simp add: scenario_B_def)
  show ?thesis
    using C6_channel_scores [of "''owner''" scenario_B 20 "''acne''" "[]" ?a "[?d, ?h]"] a d h o
    by simp
qed

section \<open>Properties of the orchestrator\<close>

text \<open>The id of the inserted row is new, so the updates touch that row only.\<close>


lemma fold_max_ge_init: "(b::nat) \<le> fold max xs b"
  by (induction xs arbitrary: b) (auto intro: order_trans [OF max.cobounded2])

lemma fold_max_ge_elem: "x \<in> set xs \<Longrightarrow> (x::nat) \<le> fold max xs b"
proof (induction xs arbitrary: b)
  case Nil
  then show ?case by simp
next
  case (Cons y ys)
  show ?case
  proof (cases "x = y")
    case True
    have "y \<le> max y b" by simp
    also have "\<dots> \<le> fold max ys (max y b)" by (rule fold_max_ge_init)
    finally show ?thesis using True by simp
  next
    case False
    then show ?thesis using Cons by simp
  qed
qed

lemma fresh_id_fresh: "r \<in> set tbl \<Longrightarrow> row_id r \<noteq> fresh_id tbl"
  using fold_max_ge_elem [of "row_id r" "map row_id tbl" 0] by (auto simp: fresh_id_def)

lemma update_eq_id_other:
  "\<forall>r\<in>set tbl. row_id r \<noteq> i \<Longrightarrow> update_eq_id f i tbl = tbl"
  by (induction tbl) (auto simp: update_eq_id_def)

lemma update_eq_id_append:
  "update_eq_id f i (xs @ ys) = update_eq_id f i xs @ update_eq_id f i ys"
  by (simp add: update_eq_id_def)

lemma update_eq_id_fresh: "update_eq_id f (fresh_id tbl) tbl = tbl"
  by (rule update_eq_id_other) (auto dest: fresh_id_fresh)

lemma update_new_row:
  "row_id r = fresh_id tbl \<Longrightarrow> update_eq_id f (fresh_id tbl) (tbl @ [r]) = tbl @ [f r]"
  by (simp add: update_eq_id_append update_eq_id_fresh) (simp add: update_eq_id_def)

text \<open>The run in one equation per way it can end.\<close>

lemma start_insert_failed:
  "\<not> insert_ok w \<Longrightarrow> startOpenAIVisionAnalysis w tbl uid =
     \<lparr>result = Inl (AnalysisServiceError ''db_create_failed''), table = tbl,
      model_requests = 0, status_writes = []\<rparr>"
  by (simp add: startOpenAIVisionAnalysis_def catch_block_def)

lemma start_images_failed:
  "insert_ok w \<Longrightarrow> getSignedImageUrls (uploaded_images w) (sign w) uid = Inl e \<Longrightarrow>
   startOpenAIVisionAnalysis w tbl uid =
     \<lparr>result = Inl (rethrown e),
      table = tbl @ [(new_row w tbl uid)\<lparr>status := error, error_message := Some e\<rparr>],
      model_requests = 0, status_writes = [uploading, screening, error]\<rparr>"
  by (simp add: startOpenAIVisionAnalysis_def catch_block_def Let_def new_row_def update_new_row)

lemma start_vision_failed:
  "insert_ok w \<Longrightarrow> getSignedImageUrls (uploaded_images w) (sign w) uid = Inr sg \<Longrightarrow>
   outcome (callVision (URL_ok w) (provider w) (random w) (urls sg)) = Inl e \<Longrightarrow>
   startOpenAIVisionAnalysis w tbl uid =
     \<lparr>result = Inl (rethrown e),
      table = tbl @ [(new_row w tbl uid)\<lparr>status := error, error_message := Some e\<rparr>],
      model_requests = attempts (callVision (URL_ok w) (provider w) (random w) (urls sg)),
      status_writes = [uploading, screening, detecting, error]\<rparr>"
  by (simp add: startOpenAIVisionAnalysis_def catch_block_def Let_def new_row_def update_new_row)

lemma start_save_failed:
  "insert_ok w \<Longrightarrow> getSignedImageUrls (uploaded_images w) (sign w) uid = Inr sg \<Longrightarrow>
   outcome (callVision (URL_ok w) (provider w) (random w) (urls sg)) = Inr v \<Longrightarrow> \<not> save_ok w \<Longrightarrow>
   startOpenAIVisionAnalysis w tbl uid =
     \<lparr>result = Inl (AnalysisServiceError ''db_update_failed''),
      table = tbl @ [(new_row w tbl uid)\<lparr>status := error,
                        error_message := Some (AnalysisServiceError ''db_update_failed'')\<rparr>],
      model_requests = attempts (callVision (URL_ok w) (provider w) (random w) (urls sg)),
      status_writes = [uploading, screening, detecting, generating, error]\<rparr>"
  by (simp add: startOpenAIVisionAnalysis_def catch_block_def Let_def new_row_def update_new_row)

lemma start_succeeded:
  "insert_ok w \<Longrightarrow> getSignedImageUrls (uploaded_images w) (sign w) uid = Inr sg \<Longrightarrow>
   outcome (callVision (URL_ok w) (provider w) (random w) (urls sg)) = Inr v \<Longrightarrow> save_ok w \<Longrightarrow>
   startOpenAIVisionAnalysis w tbl uid =
     \<lparr>result = Inr (mapVisionToSummary uid v (now_completed w)),
      table = tbl @ [(new_row w tbl uid)\<lparr>status := complete, detected_traits := traits v,
                        confidence_score := Some (confidence v), image_ids := imageIds sg,
                        completed_at := Some (now_completed w)\<rparr>],
      model_requests = attempts (callVision (URL_ok w) (provider w) (random w) (urls sg)),
      status_writes = [uploading, screening, detecting, generating, complete]\<rparr>"
  by (simp add: startOpenAIVisionAnalysis_def catch_block_def Let_def new_row_def update_new_row)


text \<open>Whatever is caught, an \<^verbatim>\<open>AnalysisServiceError\<close> is thrown on.\<close>

lemma rethrown_is_service_error: "\<exists>c. rethrown e = AnalysisServiceError c"
  by (cases e) auto

text \<open>The schema rejects every payload that violates the contract.\<close>

lemma schema_rejects: "violates_contract j \<Longrightarrow> VisionAnalysisSchema j = None"
proof (cases j)
  case (JObj kvs)
  assume "violates_contract j"
  then show ?thesis
    unfolding JObj violates_contract_def
    by (auto split: option.splits json.splits list.splits simp: Option.bind_eq_None_conv)
qed simp_all

text \<open>A run ends in one of three ways.\<close>

lemma run_ends:
  obtains (no_row) "\<not> insert_ok w" "startOpenAIVisionAnalysis w tbl uid =
       \<lparr>result = Inl (AnalysisServiceError ''db_create_failed''), table = tbl,
        model_requests = 0, status_writes = []\<rparr>"
  | (failed) e n ws where "startOpenAIVisionAnalysis w tbl uid =
       \<lparr>result = Inl (rethrown e),
        table = tbl @ [(new_row w tbl uid)\<lparr>status := error, error_message := Some e\<rparr>],
        model_requests = n, status_writes = ws @ [error]\<rparr>" "complete \<notin> set ws"
  | (succeeded) sg v where "insert_ok w" "save_ok w"
      "getSignedImageUrls (uploaded_images w) (sign w) uid = Inr sg"
      "outcome (callVision (URL_ok w) (provider w) (random w) (urls sg)) = Inr v"
      "startOpenAIVisionAnalysis w tbl uid =
       \<lparr>result = Inr (mapVisionToSummary uid v (now_completed w)),
        table = tbl @ [(new_row w tbl uid)\<lparr>status := complete, detected_traits := traits v,
                        confidence_score := Some (confidence v), image_ids := imageIds sg,
                        completed_at := Some (now_completed w)\<rparr>],
        model_requests = attempts (callVision (URL_ok w) (provider w) (random w) (urls sg)),
        status_writes = [uploading, screening, detecting, generating, complete]\<rparr>"
proof (cases "insert_ok w")
  case False
  then show ?thesis using no_row start_insert_failed [of w tbl uid] by simp
next
  case ins: True
  show ?thesis
  proof (cases "getSignedImageUrls (uploaded_images w) (sign w) uid")
    case (Inl e)
    show ?thesis
      using failed [of e 0 "[uploading, screening]"] start_images_failed [OF ins Inl, of tbl]
      by simp
  next
    case (Inr sg)
    show ?thesis
    proof (cases "outcome (callVision (URL_ok w) (provider w) (random w) (urls sg))")
      case (Inl e)
      show ?thesis
        using failed [of e _ "[uploading, screening, detecting]"]
          start_vision_failed [OF ins Inr Inl, of tbl]
        by simp
    next
      case v: (Inr v)
      show ?thesis
      proof (cases "save_ok w")
        case True
        then show ?thesis
          using succeeded [OF ins True Inr v] start_succeeded [OF ins Inr v True, of tbl] by simp
      next
        case False
        then show ?thesis
          using failed [of "AnalysisServiceError ''db_update_failed''" _
              "[uploading, screening, detecting, generating]"]
            start_save_failed [OF ins Inr v False, of tbl]
          by simp
      qed
    qed
  qed
qed

text \<open>Every run that has inserted its row and fails leaves the row in
  status \<^verbatim>\<open>error\<close> with \<^verbatim>\<open>completed_at\<close> null.\<close>

lemma failed_run_row:
  assumes "insert_ok w" and "result (startOpenAIVisionAnalysis w tbl uid) = Inl x"
  shows "\<exists>e. table (startOpenAIVisionAnalysis w tbl uid) =
           tbl @ [(new_row w tbl uid)\<lparr>status := error, error_message := Some e\<rparr>] \<and>
         completed_at ((new_row w tbl uid)\<lparr>status := error, error_message := Some e\<rparr>) = None"
proof (cases rule: run_ends [of w tbl uid])
  case no_row
  then show ?thesis using assms(1) by simp
next
  case (failed e n ws)
  then show ?thesis by (simp add: new_row_def)
next
  case (succeeded sg v)
  then show ?thesis using assms(2) by simp
qed

text \<open>A run that succeeds leaves its row complete and stamped.\<close>

lemma succeeded_run_row:
  assumes "result (startOpenAIVisionAnalysis w tbl uid) = Inr s"
  shows "\<exists>row. table (startOpenAIVisionAnalysis w tbl uid) = tbl @ [row] \<and>
           status row = complete \<and> completed_at row = Some (now_completed w)"
proof (cases rule: run_ends [of w tbl uid])
  case no_row
  then show ?thesis using assms by simp
next
  case (failed e n ws)
  then show ?thesis using assms by simp
next
  case (succeeded sg v)
  then show ?thesis by simp
qed

text \<open>The two example runs.\<close>

lemma example_payload_valid: "VisionAnalysisSchema example_payload = Some example_analysis"
  by (simp add: example_payload_def example_analysis_def)

lemma example_images_signed:
  "getSignedImageUrls (uploaded_images example_world) (sign example_world) ''owner'' = Inr example_signed"
  by (simp add: getSignedImageUrls_def latest_image_def example_world_def example_image_def
        example_signed_def)

lemma example_call:
  "callVision (URL_ok example_world) (provider example_world) (random example_world)
     (urls example_signed) = \<lparr>outcome = Inr example_analysis, attempts = 1, delays = []\<rparr>"
proof -
  have "\<not> retryable_failure (Parsed_content example_payload)"
    by (simp add: retryable_failure_iff)
  then show ?thesis
    by (simp add: callVision_def example_world_def example_signed_def loop_end
          example_payload_valid slept_before_def)
qed

lemma example_run:
  "startOpenAIVisionAnalysis example_world [] ''owner'' =
     \<lparr>result = Inr (mapVisionToSummary ''owner'' example_analysis 20),
      table = [\<lparr>row_id = 1, row_user_id = ''owner'', status = complete,
                detected_traits = traits example_analysis, confidence_score = Some 85,
                image_ids = [''img'', ''img'', ''img''], created_at = 12,
                completed_at = Some 20, error_message = None\<rparr>],
      model_requests = 1,
      status_writes = [uploading, screening, detecting, generating, complete]\<rparr>"
proof -
  have ok: "insert_ok example_world" "save_ok example_world"
    by (simp_all add: example_world_def)
  have call: "outcome (callVision (URL_ok example_world) (provider example_world)
                (random example_world) (urls example_signed)) = Inr example_analysis"
    by (simp add: example_call)
  show ?thesis
    unfolding start_succeeded [OF ok(1) example_images_signed call ok(2)] example_call
    by (simp add: new_row_def fresh_id_def example_world_def example_signed_def
          example_analysis_def)
qed

lemma example_images_missing:
  "getSignedImageUrls (uploaded_images example_world_missing_left)
     (sign example_world_missing_left) ''owner'' = Inl (ImageRetrievalError missing_image)"
  by (simp add: getSignedImageUrls_def latest_image_def example_world_missing_left_def
        example_world_def example_image_def)

lemma example_missing_run:
  "startOpenAIVisionAnalysis example_world_missing_left [] ''owner'' =
     \<lparr>result = Inl (AnalysisServiceError ''missing_images''),
      table = [\<lparr>row_id = 1, row_user_id = ''owner'', status = error, detected_traits = [],
                confidence_score = None, image_ids = [], created_at = 12, completed_at = None,
                error_message = Some (ImageRetrievalError missing_image)\<rparr>],
      model_requests = 0,
      status_writes = [uploading, screening, error]\<rparr>"
proof -
  have ins: "insert_ok example_world_missing_left"
    by (simp add: example_world_missing_left_def example_world_def)
  show ?thesis
    unfolding start_images_failed [OF ins example_images_missing]
    by (simp add: new_row_def fresh_id_def example_world_missing_left_def example_world_def)
qed

text \<open>
  C2 (violated by the code).  The claim: every record that reaches \<^verbatim>\<open>complete\<close> or
  \<^verbatim>\<open>error\<close> has a non-null \<^verbatim>\<open>completedAt\<close>, the error path stamping it as the
  success path does.  For an owner without an image for \<^verbatim>\<open>left_45\<close> the run leaves its
  record in status \<^verbatim>\<open>error\<close> with \<^verbatim>\<open>completed_at\<close> null: the update of the
  \<^verbatim>\<open>catch\<close> block writes the status and the message only.  The success path (second
  part) does stamp the record.
\<close>

theorem C2_error_row_has_no_completed_at:
  "table (startOpenAIVisionAnalysis example_world_missing_left [] ''owner'') =
     [\<lparr>row_id = 1, row_user_id = ''owner'', status = error, detected_traits = [],
       confidence_score = None, image_ids = [], created_at = 12, completed_at = None,
       error_message = Some (ImageRetrievalError missing_image)\<rparr>] \<and>
   map (\<lambda>row. (status row, completed_at row))
     (table (startOpenAIVisionAnalysis example_world [] ''owner'')) = [(complete, Some 20)]"
  by (simp add: example_missing_run example_run)

text \<open>
  C4.  Let a payload violate the contract, and let it be the reply the call receives (at an
  attempt \<open>k < 3\<close>, all earlier attempts having failed retryably).  Then the schema
  rejects it; \<^verbatim>\<open>callVision\<close> on valid URLs throws the non-retryable schema error; the
  orchestrator throws an \<^verbatim>\<open>AnalysisServiceError\<close> (with code \<^verbatim>\<open>vision_api_failed\<close>
  whenever the run got as far as the call); the run never writes the status
  \<^verbatim>\<open>complete\<close>, and its record, if one was inserted, ends in status \<^verbatim>\<open>error\<close>.
\<close>

theorem C4_schema_rejection:
  assumes "violates_contract j" and "k < 3" and "provider w k = Parsed_content j"
    and "\<forall>i<k. retryable_failure (provider w i)"
  shows "VisionAnalysisSchema j = None \<and>
         (length us = 3 \<and> (\<forall>u\<in>set us. URL_ok w u) \<longrightarrow>
            outcome (callVision (URL_ok w) (provider w) (random w) us)
              = Inl (VisionAnalysisError SchemaMismatch False)) \<and>
         (\<exists>c. result (startOpenAIVisionAnalysis w tbl uid) = Inl (AnalysisServiceError c)) \<and>
         (insert_ok w \<and> (\<exists>sg. getSignedImageUrls (uploaded_images w) (sign w) uid = Inr sg) \<longrightarrow>
            result (startOpenAIVisionAnalysis w tbl uid)
              = Inl (AnalysisServiceError ''vision_api_failed'')) \<and>
         complete \<notin> set (status_writes (startOpenAIVisionAnalysis w tbl uid)) \<and>
         (\<forall>row\<in>set (table (startOpenAIVisionAnalysis w tbl uid)).
            row_id row = fresh_id tbl \<longrightarrow> status row = error)"
proof -
  let ?run = "startOpenAIVisionAnalysis w tbl uid"
  have rej: "VisionAnalysisSchema j = None"
    using assms(1) by (rule schema_rejects)
  have notretry: "\<not> retryable_failure (provider w k)"
    using assms(3) by (simp add: retryable_failure_iff)
  have loop: "outcome (callVision_loop (provider w) (random w) 0 [])
                = Inl (VisionAnalysisError SchemaMismatch False)"
    using loop_answer_at [of 0 k "provider w" "random w" "[]"] assms(2,3,4) notretry rej
    by simp
  have valid: "length us = 3 \<and> (\<forall>u\<in>set us. URL_ok w u) \<longrightarrow>
      outcome (callVision (URL_ok w) (provider w) (random w) us)
        = Inl (VisionAnalysisError SchemaMismatch False)"
    using loop by (simp add: callVision_valid_input)
  have fails: "\<exists>kind b. outcome (callVision (URL_ok w) (provider w) (random w) xs)
                           = Inl (VisionAnalysisError kind b)" for xs
    using loop by (auto simp: callVision_def split: option.splits)
  have reached: "result ?run = Inl (AnalysisServiceError ''vision_api_failed'')"
    if ins: "insert_ok w" and sg: "getSignedImageUrls (uploaded_images w) (sign w) uid = Inr sg" for sg
  proof -
    obtain kind b where "outcome (callVision (URL_ok w) (provider w) (random w) (urls sg))
                           = Inl (VisionAnalysisError kind b)"
      using fails by blast
    then show ?thesis
      by (simp add: start_vision_failed [OF ins sg])
  qed
  have ends: "(\<exists>c. result ?run = Inl (AnalysisServiceError c)) \<and>
              complete \<notin> set (status_writes ?run) \<and>
              (\<forall>row\<in>set (table ?run). row_id row = fresh_id tbl \<longrightarrow> status row = error)"
  proof (cases rule: run_ends [of w tbl uid])
    case no_row
    then show ?thesis by (auto dest: fresh_id_fresh)
  next
    case (failed e n ws)
    then show ?thesis
      using rethrown_is_service_error [of e] by (auto dest: fresh_id_fresh)
  next
    case (succeeded sg v)
    then show ?thesis using fails [of "urls sg"] by simp
  qed
  show ?thesis
    using rej valid reached ends by blast
qed

text \<open>
  C4 at a concrete input: a 429 on the first attempt, then a payload whose traits are empty.
\<close>

theorem C4_schema_rejection_witness:
  "VisionAnalysisSchema example_payload_no_traits = None \<and>
   result (startOpenAIVisionAnalysis example_world_no_traits [] ''owner'')
     = Inl (AnalysisServiceError ''vision_api_failed'') \<and>
   complete \<notin> set (status_writes (startOpenAIVisionAnalysis example_world_no_traits [] ''owner''))"
proof -
  have v: "violates_contract example_payload_no_traits"
    by (simp add: violates_contract_def example_payload_no_traits_def)
  have k: "(1::nat) < 3"
    by simp
  have reply: "provider example_world_no_traits 1 = Parsed_content example_payload_no_traits"
    by (simp add: example_world_no_traits_def example_world_def)
  have before: "\<forall>i<1. retryable_failure (provider example_world_no_traits i)"
    by (simp add: example_world_no_traits_def example_world_def retryable_failure_iff)
  have reached: "insert_ok example_world_no_traits \<and>
      (\<exists>sg. getSignedImageUrls (uploaded_images example_world_no_traits)
               (sign example_world_no_traits) ''owner'' = Inr sg)"
    using example_images_signed by (simp add: example_world_no_traits_def example_world_def)
  show ?thesis
    using C4_schema_rejection [OF v k reply before, of "[]" "[]" "''owner''"] reached
    by simp
qed

section \<open>Properties of the routes\<close>

text \<open>A missing angle makes the image step throw.\<close>

lemma missing_angle_fails:
  assumes "latest_image imgs uid a = None"
  shows "getSignedImageUrls imgs sg uid = Inl (ImageRetrievalError missing_image)"
proof -
  have "getUserImagesForAngles imgs uid [front, left_45, right_45]
          = Inl (ImageRetrievalError missing_image)"
    using assms by (cases a) (simp_all split: option.splits sum.splits)
  then show ?thesis
    by (simp add: getSignedImageUrls_def)
qed

text \<open>An admitted request leaves the bucket one token below what it found.\<close>

lemma checkLimit_consumes:
  assumes "fst (checkLimit rl now key)"
  shows "\<exists>b. buckets (snd (checkLimit rl now key)) key = Some b \<and>
              tokens b = js_dec (tokens_available rl now key)"
  using assms
  by (auto simp: checkLimit_def tokens_available_def Let_def split: option.splits if_splits)

text \<open>
  C7.  Take an authenticated owner who has no uploaded image for some angle.  If the
  limiter refuses the request, the response is the 429 and neither a record is created nor
  the provider called, whatever the images.  If the limiter admits it (and the record can
  be inserted), the response is the 400 \<^verbatim>\<open>missing_images\<close>, no request has gone to
  the model provider, and the limiter keeps the state \<^verbatim>\<open>checkLimit\<close> left: the
  owner's bucket is one token below what the request found.
\<close>

theorem C7_rate_limit_precedes_image_resolution:
  assumes "session_user w = Some uid" and "latest_image (uploaded_images w) uid a = None"
  shows "(fst (checkLimit (limiter srv) (now_checkLimit w) uid) \<and> insert_ok w \<longrightarrow>
            response (POST w srv) = Fail 400 ''missing_images'' \<and>
            provider_requests (POST w srv) = 0 \<and>
            limiter (server_after (POST w srv))
              = snd (checkLimit (limiter srv) (now_checkLimit w) uid) \<and>
            (\<exists>b. buckets (limiter (server_after (POST w srv))) uid = Some b \<and>
                  tokens b = js_dec (tokens_available (limiter srv) (now_checkLimit w) uid))) \<and>
         (\<not> fst (checkLimit (limiter srv) (now_checkLimit w) uid) \<longrightarrow>
            (\<exists>n. response (POST w srv) = Rate_limit_exceeded_429 n) \<and>
            skin_analyses (server_after (POST w srv)) = skin_analyses srv \<and>
            provider_requests (POST w srv) = 0)"
proof (intro conjI impI)
  assume h: "fst (checkLimit (limiter srv) (now_checkLimit w) uid) \<and> insert_ok w"
  let ?run = "startOpenAIVisionAnalysis w (skin_analyses srv) uid"
  have missing: "getSignedImageUrls (uploaded_images w) (sign w) uid
                   = Inl (ImageRetrievalError missing_image)"
    using assms(2) by (rule missing_angle_fails)
  have run: "result ?run = Inl (AnalysisServiceError ''missing_images'')" "model_requests ?run = 0"
    using h by (simp_all add: start_images_failed [OF _ missing])
  show "response (POST w srv) = Fail 400 ''missing_images''"
    using assms(1) h run by (simp add: POST_def split_def Let_def)
  show "provider_requests (POST w srv) = 0"
    using assms(1) h run by (simp add: POST_def split_def Let_def)
  show lim: "limiter (server_after (POST w srv)) = snd (checkLimit (limiter srv) (now_checkLimit w) uid)"
    using assms(1) h by (simp add: POST_def split_def Let_def)
  show "\<exists>b. buckets (limiter (server_after (POST w srv))) uid = Some b \<and>
             tokens b = js_dec (tokens_available (limiter srv) (now_checkLimit w) uid)"
    using checkLimit_consumes [of "limiter srv" "now_checkLimit w" uid] h lim by simp
next
  assume h: "\<not> fst (checkLimit (limiter srv) (now_checkLimit w) uid)"
  show "\<exists>n. response (POST w srv) = Rate_limit_exceeded_429 n"
    using assms(1) h by (simp add: POST_def split_def Let_def)
  show "skin_analyses (server_after (POST w srv)) = skin_analyses srv"
    using assms(1) h by (simp add: POST_def split_def Let_def)
  show "provider_requests (POST w srv) = 0"
    using assms(1) h by (simp add: POST_def split_def Let_def)
qed

text \<open>C7 for the example owner without a \<^verbatim>\<open>left_45\<close> image, on a fresh limiter.\<close>

theorem C7_rate_limit_precedes_image_resolution_witness:
  "response (POST example_world_missing_left example_server) = Fail 400 ''missing_images'' \<and>
   provider_requests (POST example_world_missing_left example_server) = 0 \<and>
   (\<exists>b. buckets (limiter (server_after (POST example_world_missing_left example_server))) ''owner''
           = Some b \<and> tokens b = Num 2)"
proof -
  have user: "session_user example_world_missing_left = Some ''owner''"
    by (simp add: example_world_missing_left_def example_world_def)
  have none: "latest_image (uploaded_images example_world_missing_left) ''owner'' left_45 = None"
    by (simp add: latest_image_def example_world_missing_left_def example_world_def
          example_image_def)
  have admitted: "fst (checkLimit (limiter example_server)
                         (now_checkLimit example_world_missing_left) ''owner'') \<and>
                  insert_ok example_world_missing_left"
    by (simp add: checkLimit_def example_server_def rateLimiter_def
          example_world_missing_left_def example_world_def)
  have avail: "tokens_available (limiter example_server)
                 (now_checkLimit example_world_missing_left) ''owner'' = Num 3"
    by (simp add: tokens_available_def example_server_def rateLimiter_def)
  note admitted_case =
    C7_rate_limit_precedes_image_resolution [OF user none, of example_server,
      THEN conjunct1, THEN mp, OF admitted]
  have consumed: "\<exists>b. buckets (limiter (server_after (POST example_world_missing_left example_server)))
                         ''owner'' = Some b \<and> tokens b = Num 2"
    using admitted_case [THEN conjunct2, THEN conjunct2, THEN conjunct2] by (simp add: avail)
  show ?thesis
    using admitted_case [THEN conjunct1] admitted_case [THEN conjunct2, THEN conjunct1] consumed
    by (intro conjI)
qed

text \<open>The first row of the ordered query result.\<close>

lemma sort_key_head:
  assumes "sort_key f xs = y # ys"
  shows "y \<in> set xs \<and> (\<forall>x\<in>set xs. f y \<le> f x)"
proof -
  have s: "set (y # ys) = set xs"
    using assms set_sort [of f xs] by simp
  have "sorted (map f (y # ys))"
    using assms sorted_sort_key [of f xs] by simp
  then have "\<forall>x\<in>set (y # ys). f y \<le> f x"
    by auto
  then show ?thesis
    using s by auto
qed

lemma sort_key_nonempty:
  assumes "xs \<noteq> []"
  shows "\<exists>y ys. sort_key f xs = y # ys"
proof (cases "sort_key f xs")
  case Nil
  then have "length xs = 0"
    using length_sort [of f xs] by simp
  then show ?thesis using assms by simp
next
  case (Cons y ys)
  then show ?thesis by simp
qed

lemma order_completed_at_desc_stamped:
  assumes "\<forall>r\<in>set rs. completed_at r \<noteq> None"
  shows "order_completed_at_desc rs =
           sort_key (\<lambda>r. case completed_at r of Some t \<Rightarrow> - t | None \<Rightarrow> 0) rs"
proof -
  have "filter (\<lambda>r. completed_at r = None) rs = []"
    using assms by (simp add: filter_empty_conv)
  moreover have "filter (\<lambda>r. completed_at r \<noteq> None) rs = rs"
    using assms by (simp add: filter_id_conv)
  ultimately show ?thesis
    by (simp add: order_completed_at_desc_def)
qed

lemma latest_completed_none:
  assumes "\<forall>r\<in>set tbl. \<not> (row_user_id r = uid \<and> status r = complete)"
  shows "latest_completed tbl uid = None"
proof -
  have "filter (\<lambda>r. row_user_id r = uid \<and> status r = complete) tbl = []"
    using assms by (simp add: filter_empty_conv)
  then show ?thesis
    by (simp add: latest_completed_def order_completed_at_desc_def)
qed

lemma latest_completed_some:
  assumes inv: "\<forall>r\<in>set tbl. status r = complete \<longrightarrow> completed_at r \<noteq> None"
    and ex: "\<exists>r\<in>set tbl. row_user_id r = uid \<and> status r = complete"
  shows "\<exists>r t. latest_completed tbl uid = Some r \<and> r \<in> set tbl \<and> row_user_id r = uid \<and>
               status r = complete \<and> completed_at r = Some t \<and>
               (\<forall>r'\<in>set tbl. \<forall>t'. row_user_id r' = uid \<and> status r' = complete \<and>
                   completed_at r' = Some t' \<longrightarrow> t' \<le> t)"
proof -
  let ?rs = "filter (\<lambda>r. row_user_id r = uid \<and> status r = complete) tbl"
  let ?key = "\<lambda>r. case completed_at r of Some t \<Rightarrow> - t | None \<Rightarrow> (0::int)"
  have stamped: "\<forall>r\<in>set ?rs. completed_at r \<noteq> None"
    using inv by simp
  have ord: "order_completed_at_desc ?rs = sort_key ?key ?rs"
    using stamped by (rule order_completed_at_desc_stamped)
  have "?rs \<noteq> []"
    using ex by (simp add: filter_empty_conv)
  then obtain r rest where hd: "sort_key ?key ?rs = r # rest"
    using sort_key_nonempty by blast
  have r: "r \<in> set ?rs" and least: "\<forall>x\<in>set ?rs. ?key r \<le> ?key x"
    using sort_key_head [OF hd] by simp_all
  obtain t where t: "completed_at r = Some t"
    using r stamped by auto
  have "t' \<le> t" if "r' \<in> set tbl" "row_user_id r' = uid" "status r' = complete"
      "completed_at r' = Some t'" for r' t'
  proof -
    have "r' \<in> set ?rs" using that by simp
    then have "?key r \<le> ?key r'" using least by blast
    then show ?thesis using t that(4) by simp
  qed
  then have newest: "\<forall>r'\<in>set tbl. \<forall>t'. row_user_id r' = uid \<and> status r' = complete \<and>
                   completed_at r' = Some t' \<longrightarrow> t' \<le> t"
    by blast
  have found: "latest_completed tbl uid = Some r"
    by (simp add: latest_completed_def ord hd)
  have "r \<in> set tbl" "row_user_id r = uid" "status r = complete"
    using r by simp_all
  then have "latest_completed tbl uid = Some r \<and> r \<in> set tbl \<and> row_user_id r = uid \<and>
               status r = complete \<and> completed_at r = Some t \<and>
               (\<forall>r'\<in>set tbl. \<forall>t'. row_user_id r' = uid \<and> status r' = complete \<and>
                   completed_at r' = Some t' \<longrightarrow> t' \<le> t)"
    using found t newest by (intro conjI)
  then show ?thesis
    by (intro exI)
qed

text \<open>What the summary of the route takes from the row.\<close>

lemma latest_summary_of_row:
  "user_id (latest_summary env uid r) = uid \<and>
   updatedAt (latest_summary env uid r)
     = (case completed_at r of Some t \<Rightarrow> t | None \<Rightarrow> created_at r) \<and>
   summary_detected_traits (latest_summary env uid r) = Some (detected_traits r) \<and>
   summary_confidence (latest_summary env uid r)
     = (case confidence_score r of Some c \<Rightarrow> c | None \<Rightarrow> 0) / 100 \<and>
   series (latest_summary env uid r)
     = [\<lparr>date = (case completed_at r of Some t \<Rightarrow> t | None \<Rightarrow> created_at r),
         acne = getTraitSeverity (detected_traits r) ''acne'',
         dryness = getTraitSeverity (detected_traits r) ''dryness'',
         pigmentation = getTraitSeverity (detected_traits r) ''hyperpigmentation''\<rparr>]"
  by (simp add: latest_summary_def Let_def)

text \<open>
  C8.  On a table whose complete rows carry their completion timestamp (the orchestrator
  keeps it so, see \<open>run_keeps_complete_rows_stamped\<close> below), for an authenticated owner
  and a query the database answers: when the owner has no complete row the response is
  \<^verbatim>\<open>{success: true, data: null}\<close> with status 200, not an error; otherwise it is the
  summary built from one of the owner's complete rows whose completion timestamp is the
  greatest among them, and that summary carries the owner, the row's completion timestamp
  (as \<^verbatim>\<open>updatedAt\<close> and as the date of the series point), the row's traits, the scores
  of the row's traits and the row's confidence divided by 100.  The route returns a
  response only; it writes nothing.
\<close>

theorem C8_latest_analysis:
  assumes "\<forall>r\<in>set tbl. status r = complete \<longrightarrow> completed_at r \<noteq> None"
  shows "((\<forall>r\<in>set tbl. \<not> (row_user_id r = uid \<and> status r = complete)) \<longrightarrow>
            GET (Some uid) True env tbl = Success_null_200) \<and>
         ((\<exists>r\<in>set tbl. row_user_id r = uid \<and> status r = complete) \<longrightarrow>
            (\<exists>r t. r \<in> set tbl \<and> row_user_id r = uid \<and> status r = complete \<and>
                    completed_at r = Some t \<and>
                    (\<forall>r'\<in>set tbl. \<forall>t'. row_user_id r' = uid \<and> status r' = complete \<and>
                        completed_at r' = Some t' \<longrightarrow> t' \<le> t) \<and>
                    GET (Some uid) True env tbl = Json_200 (latest_summary env uid r) \<and>
                    user_id (latest_summary env uid r) = uid \<and>
                    updatedAt (latest_summary env uid r) = t \<and>
                    summary_detected_traits (latest_summary env uid r)
                      = Some (detected_traits r) \<and>
                    summary_confidence (latest_summary env uid r)
                      = (case confidence_score r of Some c \<Rightarrow> c | None \<Rightarrow> 0) / 100 \<and>
                    series (latest_summary env uid r)
                      = [\<lparr>date = t,
                          acne = getTraitSeverity (detected_traits r) ''acne'',
                          dryness = getTraitSeverity (detected_traits r) ''dryness'',
                          pigmentation =
                            getTraitSeverity (detected_traits r) ''hyperpigmentation''\<rparr>]))"
proof (intro conjI impI)
  assume "\<forall>r\<in>set tbl. \<not> (row_user_id r = uid \<and> status r = complete)"
  then show "GET (Some uid) True env tbl = Success_null_200"
    by (simp add: GET_def latest_completed_none)
next
  assume "\<exists>r\<in>set tbl. row_user_id r = uid \<and> status r = complete"
  from latest_completed_some [OF assms this]
  obtain r t where found: "latest_completed tbl uid = Some r"
    and row: "r \<in> set tbl" "row_user_id r = uid" "status r = complete"
    and stamp: "completed_at r = Some t"
    and newest: "\<forall>r'\<in>set tbl. \<forall>t'. row_user_id r' = uid \<and> status r' = complete \<and>
          completed_at r' = Some t' \<longrightarrow> t' \<le> t"
    by (elim exE conjE)
  have get: "GET (Some uid) True env tbl = Json_200 (latest_summary env uid r)"
    using found by (simp add: GET_def)
  note fields = latest_summary_of_row [of env uid r]
  have "r \<in> set tbl \<and> row_user_id r = uid \<and> status r = complete \<and>
        completed_at r = Some t \<and>
        (\<forall>r'\<in>set tbl. \<forall>t'. row_user_id r' = uid \<and> status r' = complete \<and>
            completed_at r' = Some t' \<longrightarrow> t' \<le> t) \<and>
        GET (Some uid) True env tbl = Json_200 (latest_summary env uid r) \<and>
        user_id (latest_summary env uid r) = uid \<and>
        updatedAt (latest_summary env uid r) = t \<and>
        summary_detected_traits (latest_summary env uid r) = Some (detected_traits r) \<and>
        summary_confidence (latest_summary env uid r)
          = (case confidence_score r of Some c \<Rightarrow> c | None \<Rightarrow> 0) / 100 \<and>
        series (latest_summary env uid r)
          = [\<lparr>date = t,
              acne = getTraitSeverity (detected_traits r) ''acne'',
              dryness = getTraitSeverity (detected_traits r) ''dryness'',
              pigmentation = getTraitSeverity (detected_traits r) ''hyperpigmentation''\<rparr>]"
    using row stamp newest get fields by simp
  then show "\<exists>r t. r \<in> set tbl \<and> row_user_id r = uid \<and> status r = complete \<and>
        completed_at r = Some t \<and>
        (\<forall>r'\<in>set tbl. \<forall>t'. row_user_id r' = uid \<and> status r' = complete \<and>
            completed_at r' = Some t' \<longrightarrow> t' \<le> t) \<and>
        GET (Some uid) True env tbl = Json_200 (latest_summary env uid r) \<and>
        user_id (latest_summary env uid r) = uid \<and>
        updatedAt (latest_summary env uid r) = t \<and>
        summary_detected_traits (latest_summary env uid r) = Some (detected_traits r) \<and>
        summary_confidence (latest_summary env uid r)
          = (case confidence_score r of Some c \<Rightarrow> c | None \<Rightarrow> 0) / 100 \<and>
        series (latest_summary env uid r)
          = [\<lparr>date = t,
              acne = getTraitSeverity (detected_traits r) ''acne'',
              dryness = getTraitSeverity (detected_traits r) ''dryness'',
              pigmentation = getTraitSeverity (detected_traits r) ''hyperpigmentation''\<rparr>]"
    by (intro exI)
qed

text \<open>The orchestrator keeps the table in the state the theorem asks for.\<close>

lemma run_keeps_complete_rows_stamped:
  assumes "\<forall>r\<in>set tbl. status r = complete \<longrightarrow> completed_at r \<noteq> None"
  shows "\<forall>r\<in>set (table (startOpenAIVisionAnalysis w tbl uid)).
           status r = complete \<longrightarrow> completed_at r \<noteq> None"
proof (cases rule: run_ends [of w tbl uid])
  case no_row
  then show ?thesis using assms by simp
next
  case (failed e n ws)
  then show ?thesis using assms by simp
next
  case (succeeded sg v)
  then show ?thesis using assms by simp
qed


text \<open>
  C8 at concrete inputs: the empty table; and the example table, where the owner has
  complete rows of 20 and 30 next to a failed and an unfinished run, and another owner a
  newer complete row.  The response is built from the owner's row completed at 30.
\<close>

theorem C8_latest_analysis_witness:
  "GET (Some ''owner'') True None [] = Success_null_200 \<and>
   GET (Some ''owner'') True None example_table
     = Json_200 (latest_summary None ''owner'' example_row_newest) \<and>
   updatedAt (latest_summary None ''owner'' example_row_newest) = 30 \<and>
   series (latest_summary None ''owner'' example_row_newest)
     = [\<lparr>date = 30, acne = 0, dryness = 55, pigmentation = 0\<rparr>]"
proof -
  have inv0: "\<forall>r\<in>set ([]::AnalysisRow list). status r = complete \<longrightarrow> completed_at r \<noteq> None"
    by simp
  have none: "\<forall>r\<in>set ([]::AnalysisRow list). \<not> (row_user_id r = ''owner'' \<and> status r = complete)"
    by simp
  have empty: "GET (Some ''owner'') True None [] = Success_null_200"
    by (rule C8_latest_analysis [OF inv0, of "''owner''" None, THEN conjunct1, THEN mp, OF none])
  have inv1: "\<forall>r\<in>set example_table. status r = complete \<longrightarrow> completed_at r \<noteq> None"
    by (simp add: example_table_def example_row_def example_row_newest_def)
  have some: "\<exists>r\<in>set example_table. row_user_id r = ''owner'' \<and> status r = complete"
    by (simp add: example_table_def example_row_def)
  have newest_in: "example_row_newest \<in> set example_table"
    "row_user_id example_row_newest = ''owner''" "status example_row_newest = complete"
    "completed_at example_row_newest = Some 30"
    by (simp_all add: example_table_def example_row_newest_def)
  from C8_latest_analysis [OF inv1, of "''owner''" None, THEN conjunct2, THEN mp, OF some]
  obtain r t where r: "r \<in> set example_table" "row_user_id r = ''owner''" "status r = complete"
      "completed_at r = Some t"
    and newest: "\<forall>r'\<in>set example_table. \<forall>t'. row_user_id r' = ''owner'' \<and> status r' = complete \<and>
          completed_at r' = Some t' \<longrightarrow> t' \<le> t"
    and get: "GET (Some ''owner'') True None example_table = Json_200 (latest_summary None ''owner'' r)"
    and upd: "updatedAt (latest_summary None ''owner'' r) = t"
    and ser: "series (latest_summary None ''owner'' r)
                = [\<lparr>date = t,
                    acne = getTraitSeverity (detected_traits r) ''acne'',
                    dryness = getTraitSeverity (detected_traits r) ''dryness'',
                    pigmentation = getTraitSeverity (detected_traits r) ''hyperpigmentation''\<rparr>]"
    by (elim exE conjE)
  have "30 \<le> t"
    using newest newest_in by blast
  moreover have "r = example_row \<or> r = example_row_newest"
    using r(1,2,3) by (auto simp: example_table_def example_row_def)
  moreover have "completed_at example_row = Some 20"
    by (simp add: example_row_def)
  ultimately have which: "r = example_row_newest"
    using r(4) by auto
  then have t: "t = 30"
    using r(4) newest_in(4) by simp
  have scores: "getTraitSeverity (detected_traits example_row_newest) ''acne'' = 0"
    "getTraitSeverity (detected_traits example_row_newest) ''dryness'' = 55"
    "getTraitSeverity (detected_traits example_row_newest) ''hyperpigmentation'' = 0"
    by (simp_all add: getTraitSeverity_def example_row_newest_def)
  have "GET (Some ''owner'') True None example_table
          = Json_200 (latest_summary None ''owner'' example_row_newest)"
    using get which by simp
  moreover have "updatedAt (latest_summary None ''owner'' example_row_newest) = 30"
    using upd which t by simp
  moreover have "series (latest_summary None ''owner'' example_row_newest)
                   = [\<lparr>date = 30, acne = 0, dryness = 55, pigmentation = 0\<rparr>]"
    using ser which t scores by simp
  ultimately show ?thesis
    using empty by (intro conjI)
qed




end
